theory Spec2Isabelle
  imports Complex_Main
begin

section \<open>The order routes of the API (apps/api/src/routes/order.routes.ts)\<close>

text \<open>
  The theory embeds the two mutating handlers of the order routes, \<open>POST /\<close> (create
  order) and \<open>PATCH /:id/status\<close> (update order status), over an explicit database
  state. A Prisma transaction is a function that either returns the new database or an
  error; on an error the caller keeps the database it had, which is the rollback.
  Statements run one after the other, in the order the source issues them.

  Order ids are generated by the database; the model uses natural numbers and picks an
  id above every id in use. Product and user ids are the caller's strings. Amounts are
  exact rationals (the rounding of binary floating point is not modelled). Timestamps
  and the ids of items, addresses and events are left out.
\<close>

subsection \<open>Data model\<close>

text \<open>
  Modelled from the spec: the Prisma schema, from which the client's enumerations and
  row types are generated, is not among the sources. The statuses are the six that the
  request schemas and the transition table list, and \<open>PENDING_REVIEW\<close>, which the
  fraud block of the create handler writes and the spec has as the additional state
  that only the fraud hook enters. The records hold the fields that the handlers read
  and write.
\<close>

datatype OrderStatus =
  PENDING | PROCESSING | SHIPPED | DELIVERED | CANCELLED | REFUNDED | PENDING_REVIEW

datatype PaymentMethod = CREDIT_CARD | PAYPAL | BANK_TRANSFER | CASH_ON_DELIVERY

record Address =
  street :: string
  city :: string
  country :: string
  postalCode :: string

text \<open>An item of the request body (\<open>OrderItemSchema\<close>).\<close>

record OrderItemInput =
  productId :: string
  quantity :: int
  price :: rat

text \<open>The request body of create order (\<open>OrderCreateSchema\<close>).\<close>

record OrderCreate =
  req_items :: "OrderItemInput list"
  req_shippingAddress :: Address
  req_billingAddress :: "Address option"
  req_paymentMethod :: PaymentMethod
  req_customerNote :: "string option"
  req_idempotencyKey :: "string option"

text \<open>A persisted line item, as the nested create of the handler writes it.\<close>

record OrderItem =
  item_productId :: string
  item_quantity :: int
  item_price :: rat
  item_subtotal :: rat

record Order =
  order_id :: nat
  order_userId :: string
  order_total :: rat
  order_status :: OrderStatus
  order_paymentMethod :: PaymentMethod
  order_customerNote :: "string option"
  order_idempotencyKey :: "string option"
  order_trackingNumber :: "string option"
  order_shippingAddress :: Address
  order_billingAddress :: Address
  order_items :: "OrderItem list"

datatype EventType = CREATED | STATUS_CHANGE | FRAUD_FLAGGED

datatype EventPayload =
  CreatedPayload OrderStatus rat
  | StatusChangePayload OrderStatus OrderStatus "string option"
  | FraudPayload rat

record OrderEvent =
  event_orderId :: nat
  event_type :: EventType
  event_userId :: string
  event_payload :: EventPayload

record Product =
  stock :: int
  product_price :: rat

record Db =
  products :: "string \<rightharpoonup> Product"
  orders :: "Order list"
  events :: "OrderEvent list"

text \<open>
  The errors a handler can throw. \<open>InternalError\<close> stands for every error that the
  catch block of a handler answers with the generic status 500 (a \<open>TypeError\<close>, a
  Prisma error, a failure of the pricing helper).
\<close>

datatype error =
  InsufficientStockError string
  | InvalidStatusTransitionError OrderStatus OrderStatus
  | OrderNotFoundError nat
  | InternalError

datatype LogEntry = LogInfo string | LogWarn string | LogError string

text \<open>The two successful answers of create order: 201 and 409 with the existing order.\<close>

datatype CreateReply = Created Order | Conflict Order

fun create_http_status :: "error + CreateReply \<Rightarrow> nat" where
  "create_http_status (Inr (Created _)) = 201"
| "create_http_status (Inr (Conflict _)) = 409"
| "create_http_status (Inl (InsufficientStockError _)) = 409"
| "create_http_status (Inl _) = 500"

fun update_http_status :: "error + Order \<Rightarrow> nat" where
  "update_http_status (Inr _) = 200"
| "update_http_status (Inl (OrderNotFoundError _)) = 404"
| "update_http_status (Inl (InvalidStatusTransitionError _ _)) = 400"
| "update_http_status (Inl _) = 500"

text \<open>The process environment, as far as the handlers read it.\<close>

record Env =
  NODE_ENV :: string
  FRAUD_CHECK_ENABLED :: "string option"
  FRAUD_RISK_THRESHOLD :: "rat option"

text \<open>
  The \<open>env\<close> that the handlers import is \<open>EnvSchema.parse(process.env)\<close> of
  \<open>config.ts\<close>. The schema lists \<open>NODE_ENV\<close> (one of three values) and no
  \<open>FRAUD_\<close> key, and the parse drops every key the schema does not list: in the
  object the handlers read, the two fraud settings are absent.
\<close>

definition EnvSchema :: "Env \<Rightarrow> bool" where
  "EnvSchema env =
     (NODE_ENV env \<in> set [''development'', ''production'', ''test''] \<and>
      FRAUD_CHECK_ENABLED env = None \<and> FRAUD_RISK_THRESHOLD env = None)"

text \<open>What the external services answer: the model's only source of nondeterminism.\<close>

datatype FraudReply = FraudServiceFailure | RiskScore rat

datatype ShippingReply = ShippingAccepted | ShippingFailure

subsection \<open>Request schemas\<close>

text \<open>
  The routes validate the body before the handler runs. Of the Zod schemas the model
  keeps the constraints on numbers and on the status enumeration; the format of a UUID
  is kept only as far as a UUID is not the empty string.
\<close>

definition OrderItemSchema :: "OrderItemInput \<Rightarrow> bool" where
  "OrderItemSchema i = (0 < quantity i \<and> 0 < price i)"

definition OrderCreateSchema :: "OrderCreate \<Rightarrow> bool" where
  "OrderCreateSchema body =
     (list_all OrderItemSchema (req_items body) \<and>
      (case req_idempotencyKey body of None \<Rightarrow> True | Some k \<Rightarrow> k \<noteq> []))"

definition OrderUpdateSchema :: "OrderStatus \<Rightarrow> bool" where
  "OrderUpdateSchema s = (s \<in> set [PENDING, PROCESSING, SHIPPED, DELIVERED, CANCELLED, REFUNDED])"

text \<open>JavaScript truthiness of an optional string: absent and empty are falsy.\<close>

definition truthy :: "string option \<Rightarrow> bool" where
  "truthy v = (case v of None \<Rightarrow> False | Some s \<Rightarrow> s \<noteq> [])"

subsection \<open>Valid status transitions\<close>

text \<open>
  The table has six keys. A lookup of any other status is \<open>undefined\<close> in JavaScript:
  \<open>None\<close> here.
\<close>

fun VALID_STATUS_TRANSITIONS :: "OrderStatus \<Rightarrow> OrderStatus list option" where
  "VALID_STATUS_TRANSITIONS PENDING = Some [PROCESSING, CANCELLED]"
| "VALID_STATUS_TRANSITIONS PROCESSING = Some [SHIPPED, CANCELLED]"
| "VALID_STATUS_TRANSITIONS SHIPPED = Some [DELIVERED]"
| "VALID_STATUS_TRANSITIONS DELIVERED = Some [REFUNDED]"
| "VALID_STATUS_TRANSITIONS CANCELLED = Some []"
| "VALID_STATUS_TRANSITIONS REFUNDED = Some []"
| "VALID_STATUS_TRANSITIONS PENDING_REVIEW = None"

subsection \<open>Database operations\<close>

definition findUnique :: "Db \<Rightarrow> nat \<Rightarrow> Order option" where
  "findUnique db i = find (\<lambda>r. order_id r = i) (orders db)"

definition findFirst_idempotencyKey :: "Db \<Rightarrow> string option \<Rightarrow> Order option" where
  "findFirst_idempotencyKey db k = find (\<lambda>r. order_idempotencyKey r = k) (orders db)"

text \<open>The id of a new order row: above every id in the table.\<close>

definition fresh_id :: "Order list \<Rightarrow> nat" where
  "fresh_id os = Suc (foldr (\<lambda>r m. max (order_id r) m) os 0)"

text \<open>
  \<open>order.update\<close>: the row with the id is replaced and returned; Prisma throws when
  there is no such row (\<open>None\<close>).
\<close>

definition order_update :: "Db \<Rightarrow> nat \<Rightarrow> (Order \<Rightarrow> Order) \<Rightarrow> (Order \<times> Db) option" where
  "order_update db i f =
     (case findUnique db i of
        None \<Rightarrow> None
      | Some row \<Rightarrow>
          Some (f row, db\<lparr>orders := map (\<lambda>r. if order_id r = i then f r else r) (orders db)\<rparr>))"

definition orderEvent_create :: "Db \<Rightarrow> OrderEvent \<Rightarrow> Db" where
  "orderEvent_create db ev = db\<lparr>events := events db @ [ev]\<rparr>"

text \<open>
  \<open>product.updateMany\<close> with \<open>where: {id, stock: {gte: quantity}}\<close> and
  \<open>data: {stock: {decrement: quantity}}\<close>: one statement that checks and decrements,
  and returns the number of rows it changed.
\<close>

definition updateMany_decrement ::
  "(string \<rightharpoonup> Product) \<Rightarrow> string \<Rightarrow> int \<Rightarrow> (string \<rightharpoonup> Product) \<times> nat" where
  "updateMany_decrement ps pid q =
     (case ps pid of
        None \<Rightarrow> (ps, 0)
      | Some p \<Rightarrow>
          if q \<le> stock p then (ps(pid \<mapsto> p\<lparr>stock := stock p - q\<rparr>), 1) else (ps, 0))"

text \<open>The batch over the items of the request, in their order, with the counts.\<close>

fun decrement_items ::
  "(string \<rightharpoonup> Product) \<Rightarrow> OrderItemInput list \<Rightarrow> (string \<rightharpoonup> Product) \<times> nat list" where
  "decrement_items ps [] = (ps, [])"
| "decrement_items ps (i # is) =
     (case updateMany_decrement ps (productId i) (quantity i) of
        (ps1, c) \<Rightarrow> (case decrement_items ps1 is of (ps2, cs) \<Rightarrow> (ps2, c # cs)))"

text \<open>
  \<open>updateResults.forEach\<close>: the first result whose count is 0 throws
  \<open>InsufficientStockError\<close> with the product of the item at the same index.
\<close>

fun verify_updates :: "nat list \<Rightarrow> OrderItemInput list \<Rightarrow> error option" where
  "verify_updates (c # cs) (i # is) =
     (if c = 0 then Some (InsufficientStockError (productId i)) else verify_updates cs is)"
| "verify_updates _ _ = None"

text \<open>
  \<open>product.update\<close> with \<open>data: {stock: {increment: quantity}}\<close>: unconditional;
  Prisma throws when the product does not exist (\<open>None\<close>).
\<close>

definition update_increment ::
  "(string \<rightharpoonup> Product) \<Rightarrow> string \<Rightarrow> int \<Rightarrow> (string \<rightharpoonup> Product) option" where
  "update_increment ps pid q =
     (case ps pid of
        None \<Rightarrow> None
      | Some p \<Rightarrow> Some (ps(pid \<mapsto> p\<lparr>stock := stock p + q\<rparr>)))"

fun increment_items ::
  "(string \<rightharpoonup> Product) \<Rightarrow> OrderItem list \<Rightarrow> (string \<rightharpoonup> Product) option" where
  "increment_items ps [] = Some ps"
| "increment_items ps (i # is) =
     (case update_increment ps (item_productId i) (item_quantity i) of
        None \<Rightarrow> None
      | Some ps1 \<Rightarrow> increment_items ps1 is)"

subsection \<open>Pricing\<close>

text \<open>
  Modelled from the spec: \<open>calculateOrderTotal\<close> of \<open>@/utils/order\<close> is imported by
  the routes and is not among the sources. The spec has it re-derive the price of every
  item from the catalogue (the price of the request is not trusted), set the subtotal
  to price times quantity, and return the sum of the subtotals as the total together
  with the priced items. An item whose product is not in the catalogue has no price:
  the helper fails.
\<close>

fun priceItems :: "(string \<rightharpoonup> Product) \<Rightarrow> OrderItemInput list \<Rightarrow> OrderItem list option" where
  "priceItems ps [] = Some []"
| "priceItems ps (i # is) =
     (case ps (productId i) of
        None \<Rightarrow> None
      | Some p \<Rightarrow>
          (case priceItems ps is of
             None \<Rightarrow> None
           | Some ds \<Rightarrow>
               Some (\<lparr>item_productId = productId i, item_quantity = quantity i,
                      item_price = product_price p,
                      item_subtotal = product_price p * of_int (quantity i)\<rparr> # ds)))"

text \<open>
  Modelled from the spec: the result of \<open>calculateOrderTotal\<close> (absent, see above), the
  total and the priced items; its failure is one of the errors the handler answers with
  the generic status 500.
\<close>

definition calculateOrderTotal ::
  "Db \<Rightarrow> OrderItemInput list \<Rightarrow> error + (rat \<times> OrderItem list)" where
  "calculateOrderTotal db its =
     (case priceItems (products db) its of
        None \<Rightarrow> Inl InternalError
      | Some ds \<Rightarrow> Inr (sum_list (map item_subtotal ds), ds))"

subsection \<open>Create order\<close>

text \<open>
  The body of \<open>prisma.$transaction\<close> in the create handler: insert the order with its
  items, run the batch of conditional decrements, throw if a count is 0, insert the
  \<open>CREATED\<close> event, return the new order.
\<close>

definition createOrder_transaction ::
  "Db \<Rightarrow> string \<Rightarrow> OrderCreate \<Rightarrow> rat \<Rightarrow> OrderItem list \<Rightarrow> error + (Order \<times> Db)" where
  "createOrder_transaction db userId body orderTotal itemsWithDetails =
     (let newOrder =
            \<lparr>order_id = fresh_id (orders db),
             order_userId = userId,
             order_total = orderTotal,
             order_status = PENDING,
             order_paymentMethod = req_paymentMethod body,
             order_customerNote = req_customerNote body,
             order_idempotencyKey = req_idempotencyKey body,
             order_trackingNumber = None,
             order_shippingAddress = req_shippingAddress body,
             order_billingAddress =
               (case req_billingAddress body of
                  None \<Rightarrow> req_shippingAddress body
                | Some b \<Rightarrow> b),
             order_items = itemsWithDetails\<rparr>;
          db1 = db\<lparr>orders := orders db @ [newOrder]\<rparr>
      in case decrement_items (products db1) (req_items body) of
           (ps, updateResults) \<Rightarrow>
             (case verify_updates updateResults (req_items body) of
                Some e \<Rightarrow> Inl e
              | None \<Rightarrow>
                  Inr (newOrder,
                       orderEvent_create (db1\<lparr>products := ps\<rparr>)
                         \<lparr>event_orderId = order_id newOrder, event_type = CREATED,
                          event_userId = userId,
                          event_payload = CreatedPayload PENDING orderTotal\<rparr>)))"

text \<open>
  \<open>performFraudCheck\<close>: every failure of the service is caught, logged and answered
  with the risk 0.
\<close>

definition performFraudCheck :: "FraudReply \<Rightarrow> rat \<times> LogEntry list" where
  "performFraudCheck reply =
     (case reply of
        FraudServiceFailure \<Rightarrow> (0, [LogError ''Fraud check failed''])
      | RiskScore r \<Rightarrow> (r, []))"

definition fraud_threshold :: "Env \<Rightarrow> rat" where
  "fraud_threshold env = (case FRAUD_RISK_THRESHOLD env of None \<Rightarrow> 4 / 5 | Some t \<Rightarrow> t)"

text \<open>
  The block after the transaction: outside it, on the committed database. \<open>None\<close> is
  a throw of \<open>order.update\<close>.
\<close>

definition fraud_check :: "Env \<Rightarrow> Db \<Rightarrow> Order \<Rightarrow> FraudReply \<Rightarrow> (Db \<times> LogEntry list) option" where
  "fraud_check env db ord reply =
     (if NODE_ENV env = ''production'' \<and> FRAUD_CHECK_ENABLED env = Some ''true'' then
        (case performFraudCheck reply of
           (fraudRisk, logs) \<Rightarrow>
             if fraud_threshold env < fraudRisk then
               (case order_update db (order_id ord) (\<lambda>r. r\<lparr>order_status := PENDING_REVIEW\<rparr>) of
                  None \<Rightarrow> None
                | Some (_, db1) \<Rightarrow>
                    Some (orderEvent_create db1
                            \<lparr>event_orderId = order_id ord, event_type = FRAUD_FLAGGED,
                             event_userId = ''system'',
                             event_payload = FraudPayload fraudRisk\<rparr>,
                          logs @ [LogWarn ''Order flagged for fraud review'']))
             else Some (db, logs))
      else Some (db, []))"

text \<open>
  The create handler: the answer, the database after the request and the lines logged.
\<close>

definition createOrder ::
  "Env \<Rightarrow> Db \<Rightarrow> string \<Rightarrow> OrderCreate \<Rightarrow> FraudReply
     \<Rightarrow> (error + CreateReply) \<times> Db \<times> LogEntry list" where
  "createOrder env db userId body reply =
     (case (if truthy (req_idempotencyKey body)
            then findFirst_idempotencyKey db (req_idempotencyKey body) else None) of
        Some existingOrder \<Rightarrow> (Inr (Conflict existingOrder), db, [])
      | None \<Rightarrow>
          (case calculateOrderTotal db (req_items body) of
             Inl e \<Rightarrow> (Inl e, db, [LogError ''Order creation failed''])
           | Inr (orderTotal, itemsWithDetails) \<Rightarrow>
               (case createOrder_transaction db userId body orderTotal itemsWithDetails of
                  Inl e \<Rightarrow> (Inl e, db, [LogError ''Order creation failed''])
                | Inr (ord, db1) \<Rightarrow>
                    (case fraud_check env db1 ord reply of
                       None \<Rightarrow> (Inl InternalError, db1, [LogError ''Order creation failed''])
                     | Some (db2, logs) \<Rightarrow>
                         (Inr (Created ord), db2, logs @ [LogInfo ''Order created''])))))"

subsection \<open>Update order status\<close>

text \<open>
  The body of \<open>prisma.$transaction\<close> in the status handler: the stock goes back when a
  \<open>PENDING\<close> or \<open>PROCESSING\<close> order is cancelled, the order row is updated (the
  tracking number whenever one is given), the \<open>STATUS_CHANGE\<close> event is inserted.
\<close>

definition updateStatus_transaction ::
  "Db \<Rightarrow> Order \<Rightarrow> nat \<Rightarrow> OrderStatus \<Rightarrow> string option \<Rightarrow> string \<Rightarrow> error + (Order \<times> Db)" where
  "updateStatus_transaction db currentOrder i status trackingNumber userId =
     (case (if status = CANCELLED \<and> order_status currentOrder \<in> set [PENDING, PROCESSING]
            then increment_items (products db) (order_items currentOrder)
            else Some (products db)) of
        None \<Rightarrow> Inl InternalError
      | Some ps \<Rightarrow>
          (case order_update (db\<lparr>products := ps\<rparr>) i
                  (\<lambda>r. if truthy trackingNumber
                        then r\<lparr>order_status := status, order_trackingNumber := trackingNumber\<rparr>
                        else r\<lparr>order_status := status\<rparr>) of
             None \<Rightarrow> Inl InternalError
           | Some (ord, db1) \<Rightarrow>
               Inr (ord,
                    orderEvent_create db1
                      \<lparr>event_orderId = i, event_type = STATUS_CHANGE, event_userId = userId,
                       event_payload =
                         StatusChangePayload (order_status currentOrder) status
                           (if truthy trackingNumber then trackingNumber else None)\<rparr>)))"

text \<open>\<open>notifyShippingProvider\<close>: a failure of the webhook is caught and logged.\<close>

definition notifyShippingProvider :: "ShippingReply \<Rightarrow> LogEntry list" where
  "notifyShippingProvider reply =
     (case reply of
        ShippingAccepted \<Rightarrow> [LogInfo ''Shipping notification sent'']
      | ShippingFailure \<Rightarrow> [LogError ''Shipping notification failed''])"

definition updateStatus ::
  "Db \<Rightarrow> nat \<Rightarrow> OrderStatus \<Rightarrow> string option \<Rightarrow> string \<Rightarrow> ShippingReply
     \<Rightarrow> (error + Order) \<times> Db \<times> LogEntry list" where
  "updateStatus db i status trackingNumber userId reply =
     (case findUnique db i of
        None \<Rightarrow> (Inl (OrderNotFoundError i), db, [LogError ''Order status update failed''])
      | Some currentOrder \<Rightarrow>
          (case VALID_STATUS_TRANSITIONS (order_status currentOrder) of
             None \<Rightarrow> (Inl InternalError, db, [LogError ''Order status update failed''])
           | Some allowed \<Rightarrow>
               if status \<notin> set allowed then
                 (Inl (InvalidStatusTransitionError (order_status currentOrder) status), db,
                  [LogError ''Order status update failed''])
               else
                 (case updateStatus_transaction db currentOrder i status trackingNumber userId of
                    Inl e \<Rightarrow> (Inl e, db, [LogError ''Order status update failed''])
                  | Inr (updatedOrder, db1) \<Rightarrow>
                      (Inr updatedOrder, db1,
                       (if status = SHIPPED \<and> truthy trackingNumber
                        then notifyShippingProvider reply else [])
                       @ [LogInfo ''Order status updated'']))))"

subsection \<open>Sequences of requests\<close>

datatype Request =
  CreateOrderRequest string OrderCreate FraudReply
  | UpdateStatusRequest nat OrderStatus "string option" string ShippingReply

text \<open>A request that passed the validation of its route.\<close>

fun valid_request :: "Request \<Rightarrow> bool" where
  "valid_request (CreateOrderRequest userId body reply) = OrderCreateSchema body"
| "valid_request (UpdateStatusRequest i status trackingNumber userId reply) =
     OrderUpdateSchema status"

fun handle :: "Env \<Rightarrow> Db \<Rightarrow> Request \<Rightarrow> Db" where
  "handle env db (CreateOrderRequest userId body reply) =
     fst (snd (createOrder env db userId body reply))"
| "handle env db (UpdateStatusRequest i status trackingNumber userId reply) =
     fst (snd (updateStatus db i status trackingNumber userId reply))"

fun serve :: "Env \<Rightarrow> Db \<Rightarrow> Request list \<Rightarrow> Db" where
  "serve env db [] = db"
| "serve env db (r # rs) = serve env (handle env db r) rs"

subsection \<open>Quantities the theorems speak of\<close>

definition stock_of :: "Db \<Rightarrow> string \<Rightarrow> int" where
  "stock_of db p = (case products db p of None \<Rightarrow> 0 | Some pr \<Rightarrow> stock pr)"

text \<open>The quantity an order holds of a product: the sum over its items of that product.\<close>

definition quantity_of :: "string \<Rightarrow> OrderItem list \<Rightarrow> int" where
  "quantity_of p its = sum_list (map item_quantity (filter (\<lambda>it. item_productId it = p) its))"

text \<open>Every persisted item has a positive quantity (the data model's constraint).\<close>

definition quantities_positive :: "Db \<Rightarrow> bool" where
  "quantities_positive db =
     list_all (\<lambda>r. list_all (\<lambda>it. 0 < item_quantity it) (order_items r)) (orders db)"

text \<open>The pair of a current and a target status is in the transition table.\<close>

definition in_transition_table :: "OrderStatus \<Rightarrow> OrderStatus \<Rightarrow> bool" where
  "in_transition_table current target =
     (case VALID_STATUS_TRANSITIONS current of
        None \<Rightarrow> False
      | Some allowed \<Rightarrow> target \<in> set allowed)"

text \<open>No order of the database is in \<open>PENDING_REVIEW\<close>.\<close>

definition no_review :: "Db \<Rightarrow> bool" where
  "no_review db = list_all (\<lambda>r. order_status r \<noteq> PENDING_REVIEW) (orders db)"

text \<open>
  The quantity of a product that a request gives back: that of the order it cancels,
  when the cancellation succeeds.
\<close>

fun reversed_by :: "Db \<Rightarrow> Request \<Rightarrow> string \<Rightarrow> int" where
  "reversed_by db (CreateOrderRequest userId body reply) p = 0"
| "reversed_by db (UpdateStatusRequest i status trackingNumber userId reply) p =
     (case (fst (updateStatus db i status trackingNumber userId reply), findUnique db i) of
        (Inr _, Some currentOrder) \<Rightarrow>
          if status = CANCELLED then quantity_of p (order_items currentOrder) else 0
      | _ \<Rightarrow> 0)"

fun reversed :: "Env \<Rightarrow> Db \<Rightarrow> Request list \<Rightarrow> string \<Rightarrow> int" where
  "reversed env db [] p = 0"
| "reversed env db (r # rs) p = reversed_by db r p + reversed env (handle env db r) rs p"

subsection \<open>Example data\<close>

definition shopDb :: Db where
  "shopDb =
     \<lparr>products = [''A'' \<mapsto> \<lparr>stock = 3, product_price = 10\<rparr>,
                  ''B'' \<mapsto> \<lparr>stock = 5, product_price = 11 / 2\<rparr>],
      orders = [], events = []\<rparr>"

definition homeAddress :: Address where
  "homeAddress =
     \<lparr>street = ''1 Main St'', city = ''Amman'', country = ''JO'', postalCode = ''11118''\<rparr>"

definition cart :: "OrderItemInput list \<Rightarrow> string option \<Rightarrow> OrderCreate" where
  "cart its k =
     \<lparr>req_items = its, req_shippingAddress = homeAddress, req_billingAddress = None,
      req_paymentMethod = PAYPAL, req_customerNote = None, req_idempotencyKey = k\<rparr>"

definition testEnv :: Env where
  "testEnv = \<lparr>NODE_ENV = ''test'', FRAUD_CHECK_ENABLED = None, FRAUD_RISK_THRESHOLD = None\<rparr>"

text \<open>
  An environment with the fraud check switched on. It does not satisfy \<open>EnvSchema\<close>:
  the handlers of this repository never run with it. It serves to evaluate the branch
  of the create handler that is written for it.
\<close>

definition fraudCheckEnv :: Env where
  "fraudCheckEnv =
     \<lparr>NODE_ENV = ''production'', FRAUD_CHECK_ENABLED = Some ''true'',
      FRAUD_RISK_THRESHOLD = None\<rparr>"

text \<open>An order of two A and one B, and the database after it was created from \<open>shopDb\<close>.\<close>

definition order1 :: Order where
  "order1 =
     \<lparr>order_id = 1, order_userId = ''u1'', order_total = 51 / 2, order_status = PENDING,
      order_paymentMethod = PAYPAL, order_customerNote = None,
      order_idempotencyKey = Some ''key-1'', order_trackingNumber = None,
      order_shippingAddress = homeAddress, order_billingAddress = homeAddress,
      order_items =
        [\<lparr>item_productId = ''A'', item_quantity = 2, item_price = 10, item_subtotal = 20\<rparr>,
         \<lparr>item_productId = ''B'', item_quantity = 1, item_price = 11 / 2,
          item_subtotal = 11 / 2\<rparr>]\<rparr>"

definition event1 :: OrderEvent where
  "event1 =
     \<lparr>event_orderId = 1, event_type = CREATED, event_userId = ''u1'',
      event_payload = CreatedPayload PENDING (51 / 2)\<rparr>"

definition orderedDb :: Db where
  "orderedDb =
     \<lparr>products = [''A'' \<mapsto> \<lparr>stock = 1, product_price = 10\<rparr>,
                  ''B'' \<mapsto> \<lparr>stock = 4, product_price = 11 / 2\<rparr>],
      orders = [order1], events = [event1]\<rparr>"

text \<open>
  A database that holds an order in \<open>PENDING_REVIEW\<close>: what the create handler
  leaves when it runs with \<open>fraudCheckEnv\<close> and the risk is 9/10.
\<close>

definition reviewDb :: Db where
  "reviewDb =
     \<lparr>products = [''A'' \<mapsto> \<lparr>stock = 1, product_price = 10\<rparr>,
                  ''B'' \<mapsto> \<lparr>stock = 4, product_price = 11 / 2\<rparr>],
      orders = [order1\<lparr>order_status := PENDING_REVIEW\<rparr>],
      events = [event1,
                \<lparr>event_orderId = 1, event_type = FRAUD_FLAGGED, event_userId = ''system'',
                 event_payload = FraudPayload (9 / 10)\<rparr>]\<rparr>"

definition cart1 :: OrderCreate where
  "cart1 =
     cart [\<lparr>productId = ''A'', quantity = 2, price = 10\<rparr>,
           \<lparr>productId = ''B'', quantity = 1, price = 11 / 2\<rparr>] (Some ''key-1'')"

text \<open>The database after \<open>order1\<close> was cancelled in \<open>orderedDb\<close>.\<close>

definition cancelledDb :: Db where
  "cancelledDb =
     \<lparr>products = [''A'' \<mapsto> \<lparr>stock = 3, product_price = 10\<rparr>,
                  ''B'' \<mapsto> \<lparr>stock = 5, product_price = 11 / 2\<rparr>],
      orders = [order1\<lparr>order_status := CANCELLED\<rparr>],
      events = [event1,
                \<lparr>event_orderId = 1, event_type = STATUS_CHANGE, event_userId = ''admin'',
                 event_payload = StatusChangePayload PENDING CANCELLED None\<rparr>]\<rparr>"

text \<open>\<open>orderedDb\<close> with \<open>order1\<close> in \<open>PROCESSING\<close>.\<close>

definition processingDb :: Db where
  "processingDb = orderedDb\<lparr>orders := [order1\<lparr>order_status := PROCESSING\<rparr>]\<rparr>"


section \<open>Properties\<close>

subsection \<open>Lists and lookups\<close>

lemma find_append_option:
  "find P (xs @ ys) = (case find P xs of None \<Rightarrow> find P ys | Some x \<Rightarrow> Some x)"
  by (induction xs) auto

lemma find_map_same:
  assumes "\<And>x. P (g x) = P x" and "\<And>x. P x \<Longrightarrow> g x = x"
  shows "find P (map g xs) = find P xs"
  using assms by (induction xs) auto

lemma find_map_image:
  assumes "\<And>x. P (g x) = P x"
  shows "find P (map g xs) = map_option g (find P xs)"
  using assms by (induction xs) auto

lemma fresh_id_above: "r \<in> set os \<Longrightarrow> order_id r < fresh_id os"
  by (induction os) (auto simp: fresh_id_def)

lemma findUnique_fresh: "findUnique db (fresh_id (orders db)) = None"
  using fresh_id_above[of _ "orders db"] by (fastforce simp: findUnique_def find_None_iff)

lemma findUnique_id: "findUnique db i = Some r \<Longrightarrow> order_id r = i \<and> r \<in> set (orders db)"
  by (auto simp: findUnique_def find_Some_iff)

subsection \<open>The batch of conditional decrements\<close>

lemma length_decrement_items: "length (snd (decrement_items ps its)) = length its"
proof (induction its arbitrary: ps)
  case Nil
  show ?case by simp
next
  case (Cons i its)
  obtain ps1 c where a: "updateMany_decrement ps (productId i) (quantity i) = (ps1, c)"
    by (cases "updateMany_decrement ps (productId i) (quantity i)")
  obtain ps2 cs where b: "decrement_items ps1 its = (ps2, cs)"
    by (cases "decrement_items ps1 its")
  from Cons[of ps1] b have "length cs = length its" by simp
  with a b show ?case by simp
qed

text \<open>
  A conditional decrement changes no row exactly when the product is missing or its
  stock, at that moment, is below the quantity.
\<close>

lemma updateMany_decrement_count_zero:
  "snd (updateMany_decrement ps pid q) = 0 \<longleftrightarrow>
     (case ps pid of None \<Rightarrow> True | Some p \<Rightarrow> stock p < q)"
  by (auto simp: updateMany_decrement_def split: option.splits)

lemma verify_updates_first_zero:
  "length cs = length its \<Longrightarrow> 0 \<in> set cs \<Longrightarrow>
   \<exists>k<length its. cs ! k = 0 \<and> (\<forall>j<k. cs ! j \<noteq> 0) \<and>
      verify_updates cs its = Some (InsufficientStockError (productId (its ! k)))"
proof (induction cs its rule: verify_updates.induct)
  case (1 c cs i "is")
  show ?case
  proof (cases "c = 0")
    case True
    then show ?thesis by (intro exI[of _ 0]) simp
  next
    case False
    with 1 obtain k where k: "k < length is" "cs ! k = 0" "\<forall>j<k. cs ! j \<noteq> 0"
      "verify_updates cs is = Some (InsufficientStockError (productId (is ! k)))"
      by auto
    show ?thesis
    proof (intro exI[of _ "Suc k"] conjI allI impI)
      fix j assume "j < Suc k"
      then show "(c # cs) ! j \<noteq> 0" using False k(3) by (cases j) auto
    qed (use k False in auto)
  qed
qed auto

subsection \<open>What the transactions and the fraud check write\<close>

lemma createOrder_transaction_Inr:
  assumes "createOrder_transaction db userId body t ds = Inr (ord, db1)"
  shows "orders db1 = orders db @ [ord]"
    and "order_id ord = fresh_id (orders db)"
    and "order_status ord = PENDING"
    and "order_items ord = ds"
    and "order_total ord = t"
    and "order_idempotencyKey ord = req_idempotencyKey body"
    and "products db1 = fst (decrement_items (products db) (req_items body))"
    and "verify_updates (snd (decrement_items (products db) (req_items body))) (req_items body) = None"
    and "events db1 = events db @
           [\<lparr>event_orderId = order_id ord, event_type = CREATED, event_userId = userId,
             event_payload = CreatedPayload PENDING t\<rparr>]"
  using assms
  by (auto simp: createOrder_transaction_def Let_def orderEvent_create_def
           split: prod.splits option.splits)

lemma createOrder_transaction_findUnique:
  assumes "createOrder_transaction db userId body t ds = Inr (ord, db1)"
  shows "findUnique db1 (order_id ord) = Some ord"
proof -
  have "find (\<lambda>r. order_id r = fresh_id (orders db)) (orders db) = None"
    using findUnique_fresh[of db] by (simp add: findUnique_def)
  then show ?thesis
    using createOrder_transaction_Inr(1,2)[OF assms]
    by (simp add: findUnique_def find_append_option)
qed

lemma fraud_check_Some:
  assumes "fraud_check env db ord reply = Some (db2, logs)"
  shows "products db2 = products db"
    and "db2 = db \<or>
         (orders db2 =
            map (\<lambda>r. if order_id r = order_id ord then r\<lparr>order_status := PENDING_REVIEW\<rparr> else r)
              (orders db) \<and>
          (\<exists>risk. fraud_threshold env < risk \<and> fst (performFraudCheck reply) = risk \<and>
             events db2 = events db @
               [\<lparr>event_orderId = order_id ord, event_type = FRAUD_FLAGGED,
                 event_userId = ''system'', event_payload = FraudPayload risk\<rparr>]))"
  using assms
  by (auto simp: fraud_check_def order_update_def orderEvent_create_def
           split: if_splits prod.splits option.splits)

lemma fraud_check_defined:
  assumes "findUnique db (order_id ord) = Some row"
  shows "\<exists>db2 logs. fraud_check env db ord reply = Some (db2, logs)"
  using assms
  by (auto simp: fraud_check_def order_update_def split: prod.splits)

text \<open>The four ways the create handler ends.\<close>

lemma createOrder_cases:
  obtains
    (conflict) existing where "truthy (req_idempotencyKey body)"
      and "findFirst_idempotencyKey db (req_idempotencyKey body) = Some existing"
      and "createOrder env db userId body reply = (Inr (Conflict existing), db, [])"
  | (failed) e where
      "createOrder env db userId body reply = (Inl e, db, [LogError ''Order creation failed''])"
  | (created) t ds ord db1 db2 logs where
      "\<not> truthy (req_idempotencyKey body) \<or>
         findFirst_idempotencyKey db (req_idempotencyKey body) = None"
      and "calculateOrderTotal db (req_items body) = Inr (t, ds)"
      and "createOrder_transaction db userId body t ds = Inr (ord, db1)"
      and "fraud_check env db1 ord reply = Some (db2, logs)"
      and "createOrder env db userId body reply =
             (Inr (Created ord), db2, logs @ [LogInfo ''Order created''])"
proof (cases "if truthy (req_idempotencyKey body)
              then findFirst_idempotencyKey db (req_idempotencyKey body) else None")
  case (Some existing)
  then show ?thesis
    using conflict[of existing] by (auto simp: createOrder_def split: if_splits)
next
  case None
  then have nohit: "\<not> truthy (req_idempotencyKey body) \<or>
         findFirst_idempotencyKey db (req_idempotencyKey body) = None"
    by (auto split: if_splits)
  show ?thesis
  proof (cases "calculateOrderTotal db (req_items body)")
    case (Inl e)
    with None show ?thesis using failed[of e] by (simp add: createOrder_def)
  next
    case (Inr tds)
    obtain t ds where tds: "tds = (t, ds)" by (cases tds)
    show ?thesis
    proof (cases "createOrder_transaction db userId body t ds")
      case (Inl e)
      with None Inr tds show ?thesis using failed[of e] by (simp add: createOrder_def)
    next
      case tx: (Inr odb)
      obtain ord db1 where odb: "odb = (ord, db1)" by (cases odb)
      from createOrder_transaction_findUnique[of db userId body t ds ord db1] tx odb
      have "findUnique db1 (order_id ord) = Some ord" by simp
      from fraud_check_defined[OF this, of env reply]
      obtain db2 logs where fc: "fraud_check env db1 ord reply = Some (db2, logs)" by blast
      have "createOrder env db userId body reply =
             (Inr (Created ord), db2, logs @ [LogInfo ''Order created''])"
        using None Inr tds tx odb fc by (simp add: createOrder_def)
      then show ?thesis
        using created[of t ds ord db1 db2 logs] nohit Inr tds tx odb fc by simp
    qed
  qed
qed

lemma updateStatus_transaction_Inr:
  assumes "updateStatus_transaction db cur i status tn userId = Inr (ord, db1)"
    and "findUnique db i = Some cur"
  shows "ord = cur\<lparr>order_status := status,
                   order_trackingNumber := (if truthy tn then tn else order_trackingNumber cur)\<rparr>"
    and "orders db1 =
           map (\<lambda>r. if order_id r = i
                    then r\<lparr>order_status := status,
                           order_trackingNumber :=
                             (if truthy tn then tn else order_trackingNumber r)\<rparr>
                    else r) (orders db)"
    and "events db1 = events db @
           [\<lparr>event_orderId = i, event_type = STATUS_CHANGE, event_userId = userId,
             event_payload = StatusChangePayload (order_status cur) status
                               (if truthy tn then tn else None)\<rparr>]"
    and "Some (products db1) =
           (if status = CANCELLED \<and> order_status cur \<in> set [PENDING, PROCESSING]
            then increment_items (products db) (order_items cur) else Some (products db))"
  using assms
  by (auto simp: updateStatus_transaction_def order_update_def orderEvent_create_def
                 findUnique_def
           split: if_splits option.splits)

text \<open>The ways the status handler ends.\<close>

lemma updateStatus_cases:
  obtains
    (notfound) "findUnique db i = None"
      and "updateStatus db i status tn userId reply =
             (Inl (OrderNotFoundError i), db, [LogError ''Order status update failed''])"
  | (nokey) cur where "findUnique db i = Some cur"
      and "VALID_STATUS_TRANSITIONS (order_status cur) = None"
      and "updateStatus db i status tn userId reply =
             (Inl InternalError, db, [LogError ''Order status update failed''])"
  | (illegal) cur allowed where "findUnique db i = Some cur"
      and "VALID_STATUS_TRANSITIONS (order_status cur) = Some allowed"
      and "status \<notin> set allowed"
      and "updateStatus db i status tn userId reply =
             (Inl (InvalidStatusTransitionError (order_status cur) status), db,
              [LogError ''Order status update failed''])"
  | (rolledback) cur allowed where "findUnique db i = Some cur"
      and "VALID_STATUS_TRANSITIONS (order_status cur) = Some allowed"
      and "status \<in> set allowed"
      and "updateStatus_transaction db cur i status tn userId = Inl InternalError"
      and "updateStatus db i status tn userId reply =
             (Inl InternalError, db, [LogError ''Order status update failed''])"
  | (updated) cur allowed ord db1 where "findUnique db i = Some cur"
      and "VALID_STATUS_TRANSITIONS (order_status cur) = Some allowed"
      and "status \<in> set allowed"
      and "updateStatus_transaction db cur i status tn userId = Inr (ord, db1)"
      and "updateStatus db i status tn userId reply =
             (Inr ord, db1,
              (if status = SHIPPED \<and> truthy tn then notifyShippingProvider reply else [])
              @ [LogInfo ''Order status updated''])"
proof (cases "findUnique db i")
  case None
  then show ?thesis using notfound by (simp add: updateStatus_def)
next
  case (Some cur)
  show ?thesis
  proof (cases "VALID_STATUS_TRANSITIONS (order_status cur)")
    case None
    with Some show ?thesis using nokey[of cur] by (simp add: updateStatus_def)
  next
    case allowed: (Some allowed)
    show ?thesis
    proof (cases "status \<in> set allowed")
      case False
      with Some allowed show ?thesis using illegal[of cur allowed] by (simp add: updateStatus_def)
    next
      case True
      show ?thesis
      proof (cases "updateStatus_transaction db cur i status tn userId")
        case (Inl e)
        then have "e = InternalError"
          by (auto simp: updateStatus_transaction_def split: option.splits if_splits)
        with Inl Some allowed True show ?thesis
          using rolledback[of cur allowed] by (simp add: updateStatus_def)
      next
        case (Inr odb)
        obtain ord db1 where "odb = (ord, db1)" by (cases odb)
        with Inr Some allowed True show ?thesis
          using updated[of cur allowed ord db1] by (simp add: updateStatus_def)
      qed
    qed
  qed
qed

subsection \<open>Failed creation leaves nothing behind\<close>

text \<open>
  C1. When the request reaches the transaction (no order answers its idempotency key,
  the cart is priced) and some conditional decrement of the batch changes no row, the
  handler fails with \<open>InsufficientStockError\<close> for the product of the first such item,
  and the database is the one before the request: no order, no item, no event and no
  decrement of any item remains.
\<close>

theorem createOrder_insufficient_stock_atomic:
  assumes nohit: "\<not> truthy (req_idempotencyKey body) \<or>
                  findFirst_idempotencyKey db (req_idempotencyKey body) = None"
    and calc: "calculateOrderTotal db (req_items body) = Inr (t, ds)"
    and zero: "0 \<in> set (snd (decrement_items (products db) (req_items body)))"
  shows "\<exists>k<length (req_items body).
           snd (decrement_items (products db) (req_items body)) ! k = 0 \<and>
           (\<forall>j<k. snd (decrement_items (products db) (req_items body)) ! j \<noteq> 0) \<and>
           createOrder env db userId body reply =
             (Inl (InsufficientStockError (productId (req_items body ! k))), db,
              [LogError ''Order creation failed''])"
proof -
  obtain ps cs where dec: "decrement_items (products db) (req_items body) = (ps, cs)"
    by (cases "decrement_items (products db) (req_items body)")
  have len: "length cs = length (req_items body)"
    using length_decrement_items[of "products db" "req_items body"] dec by simp
  from zero dec have "0 \<in> set cs" by simp
  from verify_updates_first_zero[OF len this]
  obtain k where k: "k < length (req_items body)" "cs ! k = 0" "\<forall>j<k. cs ! j \<noteq> 0"
    "verify_updates cs (req_items body) =
       Some (InsufficientStockError (productId (req_items body ! k)))"
    by blast
  have tx: "createOrder_transaction db userId body t ds =
              Inl (InsufficientStockError (productId (req_items body ! k)))"
    using dec k(4) by (simp add: createOrder_transaction_def Let_def)
  have "createOrder env db userId body reply =
          (Inl (InsufficientStockError (productId (req_items body ! k))), db,
           [LogError ''Order creation failed''])"
    using nohit calc tx by (auto simp: createOrder_def)
  with k dec show ?thesis by auto
qed

theorem createOrder_insufficient_stock_atomic_witness:
  "createOrder testEnv shopDb ''u1''
      (cart [\<lparr>productId = ''B'', quantity = 1, price = 11 / 2\<rparr>,
             \<lparr>productId = ''A'', quantity = 4, price = 10\<rparr>] None) (RiskScore 1) =
     (Inl (InsufficientStockError ''A''), shopDb, [LogError ''Order creation failed''])"
proof -
  let ?body = "cart [\<lparr>productId = ''B'', quantity = 1, price = 11 / 2\<rparr>,
                     \<lparr>productId = ''A'', quantity = 4, price = 10\<rparr>] None"
  have h1: "\<not> truthy (req_idempotencyKey ?body) \<or>
            findFirst_idempotencyKey shopDb (req_idempotencyKey ?body) = None"
    by (simp add: cart_def truthy_def)
  have h2: "calculateOrderTotal shopDb (req_items ?body) =
              Inr (91 / 2,
                   [\<lparr>item_productId = ''B'', item_quantity = 1, item_price = 11 / 2,
                     item_subtotal = 11 / 2\<rparr>,
                    \<lparr>item_productId = ''A'', item_quantity = 4, item_price = 10,
                     item_subtotal = 40\<rparr>])"
    by (simp add: calculateOrderTotal_def cart_def shopDb_def)
  have cs: "snd (decrement_items (products shopDb) (req_items ?body)) = [1, 0]"
    by (simp add: cart_def shopDb_def updateMany_decrement_def)
  then have h3: "0 \<in> set (snd (decrement_items (products shopDb) (req_items ?body)))"
    by simp
  from createOrder_insufficient_stock_atomic[OF h1 h2 h3, of testEnv "''u1''" "RiskScore 1"]
  obtain k where k: "k < length (req_items ?body)"
     "snd (decrement_items (products shopDb) (req_items ?body)) ! k = 0"
     "createOrder testEnv shopDb ''u1'' ?body (RiskScore 1) =
             (Inl (InsufficientStockError (productId (req_items ?body ! k))), shopDb,
              [LogError ''Order creation failed''])"
    by blast
  from k(1) have "k = 0 \<or> k = 1" by (auto simp: cart_def)
  with k(2) cs have "k = 1" by auto
  with k(3) show ?thesis by (simp add: cart_def)
qed

subsection \<open>Illegal transitions\<close>

text \<open>
  From a status that has an entry in the table, a target outside the entry is refused
  with \<open>InvalidStatusTransitionError\<close> and the database is untouched; an id without an
  order is refused with \<open>OrderNotFoundError\<close>.
\<close>

lemma updateStatus_not_in_table:
  assumes "findUnique db i = Some cur"
    and "VALID_STATUS_TRANSITIONS (order_status cur) = Some allowed"
    and "status \<notin> set allowed"
  shows "updateStatus db i status trackingNumber userId reply =
           (Inl (InvalidStatusTransitionError (order_status cur) status), db,
            [LogError ''Order status update failed''])"
  using assms by (simp add: updateStatus_def)

lemma updateStatus_not_found:
  assumes "findUnique db i = None"
  shows "updateStatus db i status trackingNumber userId reply =
           (Inl (OrderNotFoundError i), db, [LogError ''Order status update failed''])"
  using assms by (simp add: updateStatus_def)

text \<open>
  No request puts an order into \<open>PENDING_REVIEW\<close> while the environment is one that
  \<open>config.ts\<close> exports: the fraud block of the create handler is skipped, a new order
  is \<open>PENDING\<close>, and no entry of the table holds \<open>PENDING_REVIEW\<close> as a target.
\<close>

lemma fraud_check_skipped:
  "EnvSchema env \<Longrightarrow> fraud_check env db ord reply = Some (db, [])"
  by (simp add: fraud_check_def EnvSchema_def)

lemma PENDING_REVIEW_not_a_target:
  "VALID_STATUS_TRANSITIONS s = Some allowed \<Longrightarrow> PENDING_REVIEW \<notin> set allowed"
  by (cases s) auto

lemma handle_no_review:
  assumes env: "EnvSchema env" and nr: "no_review db"
  shows "no_review (handle env db r)"
proof (cases r)
  case (CreateOrderRequest userId body reply)
  show ?thesis
  proof (cases rule: createOrder_cases[of body db env userId reply])
    case (conflict existing)
    with CreateOrderRequest nr show ?thesis by simp
  next
    case (failed e)
    with CreateOrderRequest nr show ?thesis by simp
  next
    case (created t ds ord db1 db2 logs)
    note tx = createOrder_transaction_Inr[OF created(3)]
    from created(4) fraud_check_skipped[OF env, of db1 ord reply] have "db2 = db1" by simp
    with tx(1,3) nr CreateOrderRequest created(5) show ?thesis
      by (simp add: no_review_def)
  qed
next
  case (UpdateStatusRequest j status tn userId reply)
  show ?thesis
  proof (cases rule: updateStatus_cases[of db j status tn userId reply])
    case (updated cur allowed ord db1)
    from PENDING_REVIEW_not_a_target[OF updated(2)] updated(3)
    have "status \<noteq> PENDING_REVIEW" by auto
    with updateStatus_transaction_Inr(2)[OF updated(4,1)] nr
    have "no_review db1" by (auto simp: no_review_def list_all_iff)
    with UpdateStatusRequest updated(5) show ?thesis by simp
  qed (use UpdateStatusRequest nr in auto)
qed

lemma serve_no_review:
  "EnvSchema env \<Longrightarrow> no_review db \<Longrightarrow> no_review (serve env db reqs)"
  by (induction reqs arbitrary: db) (auto simp: handle_no_review)

lemma createOrder_cart1:
  "createOrder testEnv shopDb ''u1'' cart1 (RiskScore 1) =
     (Inr (Created order1), orderedDb, [LogInfo ''Order created''])"
  by (simp add: createOrder_def cart1_def cart_def truthy_def findFirst_idempotencyKey_def
        shopDb_def calculateOrderTotal_def createOrder_transaction_def Let_def fresh_id_def
        updateMany_decrement_def orderEvent_create_def fraud_check_def testEnv_def
        order1_def orderedDb_def event1_def homeAddress_def)

text \<open>
  C3. In every database that the two handlers reach, under an environment that
  \<open>config.ts\<close> exports and from a database without an order in \<open>PENDING_REVIEW\<close>
  (the empty one, for instance): a status update whose pair of current and target
  status is not in the transition table fails with \<open>InvalidStatusTransitionError\<close> of
  that pair, and a status update of an id without an order fails with
  \<open>OrderNotFoundError\<close>; either way the database (statuses, events, stocks) is the one
  before the request.
\<close>

theorem updateStatus_illegal_transition:
  assumes "EnvSchema env" and "no_review db0"
  shows "(findUnique (serve env db0 reqs) i = None \<longrightarrow>
            updateStatus (serve env db0 reqs) i status trackingNumber userId reply =
              (Inl (OrderNotFoundError i), serve env db0 reqs,
               [LogError ''Order status update failed''])) \<and>
         (\<forall>cur. findUnique (serve env db0 reqs) i = Some cur \<and>
                \<not> in_transition_table (order_status cur) status \<longrightarrow>
            updateStatus (serve env db0 reqs) i status trackingNumber userId reply =
              (Inl (InvalidStatusTransitionError (order_status cur) status),
               serve env db0 reqs, [LogError ''Order status update failed'']))"
proof (intro conjI allI impI)
  assume "findUnique (serve env db0 reqs) i = None"
  then show "updateStatus (serve env db0 reqs) i status trackingNumber userId reply =
              (Inl (OrderNotFoundError i), serve env db0 reqs,
               [LogError ''Order status update failed''])"
    by (rule updateStatus_not_found)
next
  fix cur
  assume h: "findUnique (serve env db0 reqs) i = Some cur \<and>
             \<not> in_transition_table (order_status cur) status"
  then have found: "findUnique (serve env db0 reqs) i = Some cur" by blast
  from serve_no_review[OF assms, of reqs] findUnique_id[OF found]
  have "order_status cur \<noteq> PENDING_REVIEW"
    by (auto simp: no_review_def list_all_iff)
  then obtain allowed where al: "VALID_STATUS_TRANSITIONS (order_status cur) = Some allowed"
    by (cases "order_status cur") auto
  with h have "status \<notin> set allowed" by (simp add: in_transition_table_def)
  from updateStatus_not_in_table[OF found al this]
  show "updateStatus (serve env db0 reqs) i status trackingNumber userId reply =
              (Inl (InvalidStatusTransitionError (order_status cur) status),
               serve env db0 reqs, [LogError ''Order status update failed''])" .
qed

theorem updateStatus_illegal_transition_witness:
  "updateStatus (serve testEnv shopDb [CreateOrderRequest ''u1'' cart1 (RiskScore 1)])
      7 PROCESSING None ''admin'' ShippingAccepted =
     (Inl (OrderNotFoundError 7),
      serve testEnv shopDb [CreateOrderRequest ''u1'' cart1 (RiskScore 1)],
      [LogError ''Order status update failed'']) \<and>
   updateStatus (serve testEnv shopDb [CreateOrderRequest ''u1'' cart1 (RiskScore 1)])
      1 SHIPPED (Some ''TRK-1'') ''admin'' ShippingAccepted =
     (Inl (InvalidStatusTransitionError PENDING SHIPPED),
      serve testEnv shopDb [CreateOrderRequest ''u1'' cart1 (RiskScore 1)],
      [LogError ''Order status update failed''])"
proof -
  let ?db = "serve testEnv shopDb [CreateOrderRequest ''u1'' cart1 (RiskScore 1)]"
  have e: "EnvSchema testEnv" by (simp add: EnvSchema_def testEnv_def)
  have n: "no_review shopDb" by (simp add: no_review_def shopDb_def)
  have db: "?db = orderedDb" by (simp add: createOrder_cart1)
  have f7: "findUnique ?db 7 = None"
    unfolding db by (simp add: findUnique_def orderedDb_def order1_def)
  have f1: "findUnique ?db 1 = Some order1"
    unfolding db by (simp add: findUnique_def orderedDb_def order1_def)
  have nt: "\<not> in_transition_table (order_status order1) SHIPPED"
    by (simp add: in_transition_table_def order1_def)
  have st: "order_status order1 = PENDING" by (simp add: order1_def)
  from updateStatus_illegal_transition[OF e n,
      of "[CreateOrderRequest ''u1'' cart1 (RiskScore 1)]" 7 PROCESSING None "''admin''"
        ShippingAccepted] f7
  have A: "updateStatus ?db 7 PROCESSING None ''admin'' ShippingAccepted =
     (Inl (OrderNotFoundError 7), ?db, [LogError ''Order status update failed''])"
    by blast
  from updateStatus_illegal_transition[OF e n,
      of "[CreateOrderRequest ''u1'' cart1 (RiskScore 1)]" 1 SHIPPED "Some ''TRK-1''"
        "''admin''" ShippingAccepted] f1 nt
  have "updateStatus ?db 1 SHIPPED (Some ''TRK-1'') ''admin'' ShippingAccepted =
     (Inl (InvalidStatusTransitionError (order_status order1) SHIPPED), ?db,
      [LogError ''Order status update failed''])"
    by blast
  with st have B: "updateStatus ?db 1 SHIPPED (Some ''TRK-1'') ''admin'' ShippingAccepted =
     (Inl (InvalidStatusTransitionError PENDING SHIPPED), ?db,
      [LogError ''Order status update failed''])"
    by simp
  from A B show ?thesis by blast
qed

subsection \<open>Orders under review\<close>

text \<open>
  With the fraud check switched on, a risk above the threshold leaves the new order in
  \<open>PENDING_REVIEW\<close>.
\<close>

lemma createOrder_flagged:
  "createOrder fraudCheckEnv shopDb ''u1'' cart1 (RiskScore (9 / 10)) =
     (Inr (Created order1), reviewDb,
      [LogWarn ''Order flagged for fraud review'', LogInfo ''Order created''])"
  by (simp add: createOrder_def cart1_def cart_def truthy_def findFirst_idempotencyKey_def
        shopDb_def calculateOrderTotal_def createOrder_transaction_def Let_def fresh_id_def
        updateMany_decrement_def orderEvent_create_def fraud_check_def fraudCheckEnv_def
        performFraudCheck_def fraud_threshold_def order_update_def findUnique_def
        order1_def reviewDb_def event1_def homeAddress_def)

lemma handle_keeps_review:
  assumes cur: "findUnique db i = Some cur" and st: "order_status cur = PENDING_REVIEW"
  shows "findUnique (handle env db r) i = Some cur"
proof (cases r)
  case (CreateOrderRequest userId body reply)
  show ?thesis
  proof (cases rule: createOrder_cases[of body db env userId reply])
    case (conflict existing)
    with CreateOrderRequest cur show ?thesis by simp
  next
    case (failed e)
    with CreateOrderRequest cur show ?thesis by simp
  next
    case (created t ds ord db1 db2 logs)
    note tx = createOrder_transaction_Inr[OF created(3)]
    have neq: "order_id ord \<noteq> i"
      using fresh_id_above[of cur "orders db"] findUnique_id[OF cur] tx(2) by auto
    have f1: "findUnique db1 i = Some cur"
      using cur tx(1) by (simp add: findUnique_def find_append_option)
    have "findUnique db2 i = Some cur"
      using fraud_check_Some(2)[OF created(4)]
    proof
      assume "db2 = db1" with f1 show ?thesis by simp
    next
      assume "orders db2 =
          map (\<lambda>r. if order_id r = order_id ord then r\<lparr>order_status := PENDING_REVIEW\<rparr> else r)
            (orders db1) \<and>
          (\<exists>risk. fraud_threshold env < risk \<and> fst (performFraudCheck reply) = risk \<and>
             events db2 = events db1 @
               [\<lparr>event_orderId = order_id ord, event_type = FRAUD_FLAGGED,
                 event_userId = ''system'', event_payload = FraudPayload risk\<rparr>])"
      then have "findUnique db2 i = findUnique db1 i"
        using neq unfolding findUnique_def by (simp add: find_map_same)
      with f1 show ?thesis by simp
    qed
    with CreateOrderRequest created(5) show ?thesis by simp
  qed
next
  case (UpdateStatusRequest j status tn userId reply)
  show ?thesis
  proof (cases rule: updateStatus_cases[of db j status tn userId reply])
    case (updated cur' allowed ord db1)
    have neq: "j \<noteq> i" using updated(1,2) cur st by auto
    have "findUnique db1 i = findUnique db i"
      using updateStatus_transaction_Inr(2)[OF updated(4,1)] neq
      unfolding findUnique_def by (simp add: find_map_same)
    with UpdateStatusRequest updated(5) cur show ?thesis by simp
  qed (use UpdateStatusRequest cur in auto)
qed

lemma serve_keeps_review:
  "findUnique db i = Some cur \<Longrightarrow> order_status cur = PENDING_REVIEW \<Longrightarrow>
   findUnique (serve env db reqs) i = Some cur"
  by (induction reqs arbitrary: db) (auto simp: handle_keeps_review)

text \<open>
  C10. For an order in \<open>PENDING_REVIEW\<close> and any target status, the handler fails with
  the generic internal error (neither \<open>InvalidStatusTransitionError\<close> nor
  \<open>OrderNotFoundError\<close>) and the database is untouched; and after any sequence of
  requests to the two handlers the order is the same row, still in \<open>PENDING_REVIEW\<close>.
\<close>

theorem PENDING_REVIEW_is_terminal:
  assumes "findUnique db i = Some cur" and "order_status cur = PENDING_REVIEW"
  shows "updateStatus db i status trackingNumber userId reply =
           (Inl InternalError, db, [LogError ''Order status update failed'']) \<and>
         findUnique (serve env db reqs) i = Some cur"
  using assms serve_keeps_review[of db i cur env reqs] by (simp add: updateStatus_def)

theorem PENDING_REVIEW_is_terminal_witness:
  "updateStatus reviewDb 1 PROCESSING (Some ''TRK-1'') ''admin'' ShippingFailure =
     (Inl InternalError, reviewDb, [LogError ''Order status update failed'']) \<and>
   findUnique
     (serve fraudCheckEnv reviewDb
        [UpdateStatusRequest 1 CANCELLED None ''admin'' ShippingAccepted,
         CreateOrderRequest ''u2'' cart1 (RiskScore 1),
         UpdateStatusRequest 1 PROCESSING None ''admin'' ShippingAccepted]) 1 =
     Some (order1\<lparr>order_status := PENDING_REVIEW\<rparr>)"
proof -
  have h1: "findUnique reviewDb 1 = Some (order1\<lparr>order_status := PENDING_REVIEW\<rparr>)"
    by (simp add: findUnique_def reviewDb_def order1_def)
  have h2: "order_status (order1\<lparr>order_status := PENDING_REVIEW\<rparr>) = PENDING_REVIEW"
    by simp
  show ?thesis by (rule PENDING_REVIEW_is_terminal[OF h1 h2])
qed

subsection \<open>What a status update writes\<close>

text \<open>
  C8, as the claim states it, fails: a tracking number given with a move to
  \<open>PROCESSING\<close> is written to the order.
\<close>

theorem updateStatus_tracking_without_SHIPPED:
  "order_trackingNumber order1 = None \<and>
   updateStatus orderedDb 1 PROCESSING (Some ''TRK-1'') ''admin'' ShippingAccepted =
     (Inr (order1\<lparr>order_status := PROCESSING, order_trackingNumber := Some ''TRK-1''\<rparr>),
      orderedDb\<lparr>orders :=
                  [order1\<lparr>order_status := PROCESSING, order_trackingNumber := Some ''TRK-1''\<rparr>],
                events :=
                  [event1,
                   \<lparr>event_orderId = 1, event_type = STATUS_CHANGE, event_userId = ''admin'',
                    event_payload =
                      StatusChangePayload PENDING PROCESSING (Some ''TRK-1'')\<rparr>]\<rparr>,
      [LogInfo ''Order status updated''])"
  by (simp add: updateStatus_def findUnique_def orderedDb_def order1_def
        updateStatus_transaction_def order_update_def truthy_def orderEvent_create_def)

text \<open>
  C8, amended. A successful status update replaces the status of the order and, when
  a non-empty tracking number is given (whatever the target status), its tracking
  number; every other field of the order and every other order are as before, and the
  events are the events before followed by one \<open>STATUS_CHANGE\<close> event.
\<close>

theorem updateStatus_frame:
  assumes "updateStatus db i status tn userId reply = (Inr ord, db1, logs)"
  shows "\<exists>cur. findUnique db i = Some cur \<and>
           ord = cur\<lparr>order_status := status,
                     order_trackingNumber :=
                       (if truthy tn then tn else order_trackingNumber cur)\<rparr> \<and>
           orders db1 =
             map (\<lambda>r. if order_id r = i
                      then r\<lparr>order_status := status,
                             order_trackingNumber :=
                               (if truthy tn then tn else order_trackingNumber r)\<rparr>
                      else r) (orders db) \<and>
           events db1 = events db @
             [\<lparr>event_orderId = i, event_type = STATUS_CHANGE, event_userId = userId,
               event_payload = StatusChangePayload (order_status cur) status
                                 (if truthy tn then tn else None)\<rparr>]"
proof (cases rule: updateStatus_cases[of db i status tn userId reply])
  case (updated cur allowed ord' db1')
  with assms have eq: "ord' = ord" "db1' = db1" by auto
  from updateStatus_transaction_Inr[OF updated(4,1)] eq updated(1)
  show ?thesis by blast
qed (use assms in auto)

lemma updateStatus_cancel_order1:
  "updateStatus orderedDb 1 CANCELLED None ''admin'' ShippingAccepted =
     (Inr (order1\<lparr>order_status := CANCELLED\<rparr>), cancelledDb,
      [LogInfo ''Order status updated''])"
  by (simp add: updateStatus_def findUnique_def orderedDb_def order1_def cancelledDb_def
        updateStatus_transaction_def order_update_def truthy_def orderEvent_create_def
        update_increment_def fun_upd_twist)

theorem updateStatus_frame_witness:
  "\<exists>cur. findUnique orderedDb 1 = Some cur \<and>
     order1\<lparr>order_status := CANCELLED\<rparr> =
       cur\<lparr>order_status := CANCELLED,
           order_trackingNumber := (if truthy None then None else order_trackingNumber cur)\<rparr> \<and>
     orders cancelledDb =
       map (\<lambda>r. if order_id r = 1
                then r\<lparr>order_status := CANCELLED,
                       order_trackingNumber :=
                         (if truthy None then None else order_trackingNumber r)\<rparr>
                else r) (orders orderedDb) \<and>
     events cancelledDb = events orderedDb @
       [\<lparr>event_orderId = 1, event_type = STATUS_CHANGE, event_userId = ''admin'',
         event_payload = StatusChangePayload (order_status cur) CANCELLED
                           (if truthy None then None else None)\<rparr>]"
  by (rule updateStatus_frame[OF updateStatus_cancel_order1])

subsection \<open>Cancellation gives the stock back\<close>

lemma increment_items_products:
  "increment_items ps its = Some ps' \<Longrightarrow>
   ps' p = map_option (\<lambda>pr. pr\<lparr>stock := stock pr + quantity_of p its\<rparr>) (ps p)"
proof (induction its arbitrary: ps)
  case Nil
  then show ?case by (cases "ps p") (simp_all add: quantity_of_def)
next
  case (Cons it its)
  from Cons.prems obtain x where x: "ps (item_productId it) = Some x"
    and rest: "increment_items
                 (ps(item_productId it \<mapsto> x\<lparr>stock := stock x + item_quantity it\<rparr>)) its = Some ps'"
    by (auto simp: update_increment_def split: option.splits)
  from Cons.IH[OF rest] x show ?case
    by (cases "ps p") (auto simp: quantity_of_def)
qed

lemma increment_items_known:
  "increment_items ps its = Some ps' \<Longrightarrow> it \<in> set its \<Longrightarrow> ps (item_productId it) \<noteq> None"
proof (induction its arbitrary: ps)
  case Nil
  then show ?case by simp
next
  case (Cons a its)
  from Cons.prems(1) obtain x where x: "ps (item_productId a) = Some x"
    and rest: "increment_items
                 (ps(item_productId a \<mapsto> x\<lparr>stock := stock x + item_quantity a\<rparr>)) its = Some ps'"
    by (auto simp: update_increment_def split: option.splits)
  show ?case
  proof (cases "it = a")
    case True
    with x show ?thesis by simp
  next
    case False
    with Cons.prems(2) have "it \<in> set its" by simp
    from Cons.IH[OF rest this] x show ?thesis
      by (cases "item_productId it = item_productId a") auto
  qed
qed

lemma quantity_of_absent:
  "\<forall>it\<in>set its. item_productId it \<noteq> p \<Longrightarrow> quantity_of p its = 0"
  by (induction its) (auto simp: quantity_of_def)

lemma increment_items_stock:
  assumes "increment_items (products db) its = Some (products db1)"
  shows "stock_of db1 p = stock_of db p + quantity_of p its"
proof (cases "products db p")
  case None
  have "\<forall>it\<in>set its. item_productId it \<noteq> p"
  proof
    fix it assume "it \<in> set its"
    from increment_items_known[OF assms this] None show "item_productId it \<noteq> p"
      by auto
  qed
  then have "quantity_of p its = 0" by (rule quantity_of_absent)
  with None increment_items_products[OF assms, of p] show ?thesis
    by (simp add: stock_of_def)
next
  case (Some pr)
  with increment_items_products[OF assms, of p] show ?thesis
    by (simp add: stock_of_def)
qed

lemma updateStatus_products_unless_cancelled:
  "status \<noteq> CANCELLED \<Longrightarrow>
   products (fst (snd (updateStatus db i status tn userId reply))) = products db"
proof (cases rule: updateStatus_cases[of db i status tn userId reply])
  case (updated cur allowed ord db1)
  assume "status \<noteq> CANCELLED"
  with updateStatus_transaction_Inr(4)[OF updated(4,1)] updated(5) show ?thesis by simp
qed auto

lemma increment_items_defined:
  "\<forall>it\<in>set its. ps (item_productId it) \<noteq> None \<Longrightarrow> \<exists>ps'. increment_items ps its = Some ps'"
proof (induction its arbitrary: ps)
  case Nil
  show ?case by simp
next
  case (Cons a its)
  from Cons.prems obtain x where x: "ps (item_productId a) = Some x" by auto
  from Cons.prems
  have "\<forall>it\<in>set its.
          (ps(item_productId a \<mapsto> x\<lparr>stock := stock x + item_quantity a\<rparr>)) (item_productId it)
            \<noteq> None"
    by auto
  from Cons.IH[OF this] obtain ps' where
    "increment_items (ps(item_productId a \<mapsto> x\<lparr>stock := stock x + item_quantity a\<rparr>)) its
       = Some ps'"
    by blast
  with x show ?case by (simp add: update_increment_def)
qed

text \<open>
  The cancellation of a \<open>PENDING\<close> or \<open>PROCESSING\<close> order whose products exist
  succeeds.
\<close>

lemma updateStatus_cancel_succeeds:
  assumes found: "findUnique db i = Some cur"
    and st: "order_status cur \<in> {PENDING, PROCESSING}"
    and known: "\<forall>it\<in>set (order_items cur). products db (item_productId it) \<noteq> None"
  shows "\<exists>ord db1. updateStatus db i CANCELLED tn userId reply =
           (Inr ord, db1, [LogInfo ''Order status updated''])"
proof -
  from st obtain allowed where al: "VALID_STATUS_TRANSITIONS (order_status cur) = Some allowed"
    and mem: "CANCELLED \<in> set allowed"
    by auto
  from increment_items_defined[OF known]
  obtain ps where inc: "increment_items (products db) (order_items cur) = Some ps" by blast
  have f: "findUnique (db\<lparr>products := ps\<rparr>) i = Some cur"
    using found by (simp add: findUnique_def)
  from st inc f obtain ord db1 where
    "updateStatus_transaction db cur i CANCELLED tn userId = Inr (ord, db1)"
    by (auto simp: updateStatus_transaction_def order_update_def)
  with found al mem show ?thesis by (simp add: updateStatus_def)
qed

text \<open>
  C5. A move to a status other than \<open>CANCELLED\<close> changes no product. The
  cancellation of a \<open>PENDING\<close> or \<open>PROCESSING\<close> order (whose products exist)
  succeeds. A successful move to \<open>CANCELLED\<close> starts from \<open>PENDING\<close> or
  \<open>PROCESSING\<close> and, in the one transaction that sets the status and inserts the
  \<open>STATUS_CHANGE\<close> event, raises the stock of every product by the quantity the order
  holds of it (the sum over the items of that product) and changes nothing else of a
  product; a second cancellation of the order is refused and changes nothing.
\<close>

theorem cancellation_restores_stock:
  "(status \<noteq> CANCELLED \<longrightarrow>
      products (fst (snd (updateStatus db i status tn userId reply))) = products db) \<and>
   (\<forall>cur. findUnique db i = Some cur \<and> order_status cur \<in> {PENDING, PROCESSING} \<and>
          (\<forall>it\<in>set (order_items cur). products db (item_productId it) \<noteq> None) \<longrightarrow>
      (\<exists>ord db1. updateStatus db i CANCELLED tn userId reply =
                    (Inr ord, db1, [LogInfo ''Order status updated'']))) \<and>
   (\<forall>ord db1 logs.
      updateStatus db i CANCELLED tn userId reply = (Inr ord, db1, logs) \<longrightarrow>
      (\<exists>cur. findUnique db i = Some cur \<and>
         order_status cur \<in> {PENDING, PROCESSING} \<and>
         (\<forall>p. products db1 p =
                map_option (\<lambda>pr. pr\<lparr>stock := stock pr + quantity_of p (order_items cur)\<rparr>)
                  (products db p)) \<and>
         (\<forall>p. stock_of db1 p = stock_of db p + quantity_of p (order_items cur)) \<and>
         order_status ord = CANCELLED \<and>
         findUnique db1 i = Some ord \<and>
         events db1 = events db @
           [\<lparr>event_orderId = i, event_type = STATUS_CHANGE, event_userId = userId,
             event_payload = StatusChangePayload (order_status cur) CANCELLED
                               (if truthy tn then tn else None)\<rparr>] \<and>
         updateStatus db1 i CANCELLED tn2 userId2 reply2 =
           (Inl (InvalidStatusTransitionError CANCELLED CANCELLED), db1,
            [LogError ''Order status update failed''])))"
proof (intro conjI allI impI)
  assume "status \<noteq> CANCELLED"
  then show "products (fst (snd (updateStatus db i status tn userId reply))) = products db"
    by (rule updateStatus_products_unless_cancelled)
next
  fix cur
  assume "findUnique db i = Some cur \<and> order_status cur \<in> {PENDING, PROCESSING} \<and>
          (\<forall>it\<in>set (order_items cur). products db (item_productId it) \<noteq> None)"
  then show "\<exists>ord db1. updateStatus db i CANCELLED tn userId reply =
                    (Inr ord, db1, [LogInfo ''Order status updated''])"
    using updateStatus_cancel_succeeds[of db i cur tn userId reply] by blast
next
  fix ord db1 logs
  assume ok: "updateStatus db i CANCELLED tn userId reply = (Inr ord, db1, logs)"
  show "\<exists>cur. findUnique db i = Some cur \<and>
         order_status cur \<in> {PENDING, PROCESSING} \<and>
         (\<forall>p. products db1 p =
                map_option (\<lambda>pr. pr\<lparr>stock := stock pr + quantity_of p (order_items cur)\<rparr>)
                  (products db p)) \<and>
         (\<forall>p. stock_of db1 p = stock_of db p + quantity_of p (order_items cur)) \<and>
         order_status ord = CANCELLED \<and>
         findUnique db1 i = Some ord \<and>
         events db1 = events db @
           [\<lparr>event_orderId = i, event_type = STATUS_CHANGE, event_userId = userId,
             event_payload = StatusChangePayload (order_status cur) CANCELLED
                               (if truthy tn then tn else None)\<rparr>] \<and>
         updateStatus db1 i CANCELLED tn2 userId2 reply2 =
           (Inl (InvalidStatusTransitionError CANCELLED CANCELLED), db1,
            [LogError ''Order status update failed''])"
  proof (cases rule: updateStatus_cases[of db i CANCELLED tn userId reply])
    case (updated cur allowed ord' db1')
    with ok have eq: "ord' = ord" "db1' = db1" by auto
    note tx = updateStatus_transaction_Inr[OF updated(4,1), unfolded eq]
    have from_st: "order_status cur \<in> {PENDING, PROCESSING}"
      using updated(2,3) by (cases "order_status cur") auto
    then have inc: "increment_items (products db) (order_items cur) = Some (products db1)"
      using tx(4) by auto
    have st: "order_status ord = CANCELLED" using tx(1) by simp
    have found: "findUnique db1 i = Some ord"
      using updated(1) findUnique_id[OF updated(1)] tx(1,2) unfolding findUnique_def
      by (simp add: find_map_image)
    have again: "updateStatus db1 i CANCELLED tn2 userId2 reply2 =
           (Inl (InvalidStatusTransitionError CANCELLED CANCELLED), db1,
            [LogError ''Order status update failed''])"
      using updateStatus_not_in_table[OF found, of "[]" CANCELLED] st by simp
    show ?thesis
      using updated(1) from_st increment_items_products[OF inc] increment_items_stock[OF inc]
        st found tx(3) again
      by (intro exI[of _ cur]) simp
  qed (use ok in auto)
qed

theorem cancellation_restores_stock_witness:
  "products (fst (snd (updateStatus orderedDb 1 PROCESSING None ''admin'' ShippingAccepted))) =
     products orderedDb \<and>
   (\<exists>ord. fst (updateStatus orderedDb 1 CANCELLED None ''admin'' ShippingAccepted) = Inr ord \<and>
          order_status ord = CANCELLED) \<and>
   stock_of orderedDb ''A'' = 1 \<and>
   stock_of (fst (snd (updateStatus orderedDb 1 CANCELLED None ''admin'' ShippingAccepted))) ''A''
     = 3 \<and>
   stock_of orderedDb ''B'' = 4 \<and>
   stock_of (fst (snd (updateStatus orderedDb 1 CANCELLED None ''admin'' ShippingAccepted))) ''B''
     = 5 \<and>
   fst (updateStatus
          (fst (snd (updateStatus orderedDb 1 CANCELLED None ''admin'' ShippingAccepted)))
          1 CANCELLED None ''admin'' ShippingAccepted) =
     Inl (InvalidStatusTransitionError CANCELLED CANCELLED)"
proof -
  note inst = cancellation_restores_stock[of PROCESSING orderedDb 1 None "''admin''"
      ShippingAccepted None "''admin''" ShippingAccepted]
  from inst have a: "products (fst (snd (updateStatus orderedDb 1 PROCESSING None ''admin''
      ShippingAccepted))) = products orderedDb"
    by simp
  have f: "findUnique orderedDb 1 = Some order1"
    by (simp add: findUnique_def orderedDb_def order1_def)
  have s: "order_status order1 \<in> {PENDING, PROCESSING}" by (simp add: order1_def)
  have k: "\<forall>it\<in>set (order_items order1). products orderedDb (item_productId it) \<noteq> None"
    by (simp add: order1_def orderedDb_def)
  from inst f s k obtain ord db1 where
    run: "updateStatus orderedDb 1 CANCELLED None ''admin'' ShippingAccepted =
            (Inr ord, db1, [LogInfo ''Order status updated''])"
    by blast
  from inst run
  obtain cur where cur: "findUnique orderedDb 1 = Some cur"
    and stocks: "\<forall>p. stock_of db1 p = stock_of orderedDb p + quantity_of p (order_items cur)"
    and st: "order_status ord = CANCELLED"
    and again: "updateStatus db1 1 CANCELLED None ''admin'' ShippingAccepted =
     (Inl (InvalidStatusTransitionError CANCELLED CANCELLED), db1,
      [LogError ''Order status update failed''])"
    by blast
  from cur f have "cur = order1" by simp
  with stocks have "stock_of db1 ''A'' = stock_of orderedDb ''A'' + 2"
    and "stock_of db1 ''B'' = stock_of orderedDb ''B'' + 1"
    by (simp_all add: quantity_of_def order1_def)
  moreover have "stock_of orderedDb ''A'' = 1" and "stock_of orderedDb ''B'' = 4"
    by (simp_all add: stock_of_def orderedDb_def)
  ultimately show ?thesis using a run st again by simp
qed

subsection \<open>Idempotency key\<close>

lemma length_filter_map_same:
  assumes "\<And>x. P (g x) = P x"
  shows "length (filter P (map g xs)) = length (filter P xs)"
  using assms by (induction xs) auto

text \<open>
  C2. For a request with a (non-empty) idempotency key: when an order with the key
  exists, the handler answers 409 with the first such order and the database is the
  one before, with nothing logged; and when the handler created an order, the same
  request sent again is answered with the row of that order and writes nothing, so
  that the two requests leave one more order than before and exactly one order with
  the key.
\<close>

theorem createOrder_idempotent:
  assumes key: "req_idempotencyKey body = Some k" and nonempty: "k \<noteq> []"
  shows "(\<forall>existing. findFirst_idempotencyKey db (Some k) = Some existing \<longrightarrow>
            createOrder env db userId body reply = (Inr (Conflict existing), db, []) \<and>
            create_http_status (fst (createOrder env db userId body reply)) = 409) \<and>
         (\<forall>ord db1 logs.
            createOrder env db userId body reply = (Inr (Created ord), db1, logs) \<longrightarrow>
            (\<exists>row. createOrder env2 db1 userId2 body reply2 = (Inr (Conflict row), db1, []) \<and>
                   (row = ord \<or> row = ord\<lparr>order_status := PENDING_REVIEW\<rparr>)) \<and>
            length (orders db1) = Suc (length (orders db)) \<and>
            length (filter (\<lambda>r. order_idempotencyKey r = Some k) (orders db1)) = 1)"
proof (intro conjI allI impI)
  fix existing
  assume "findFirst_idempotencyKey db (Some k) = Some existing"
  with key nonempty
  show "createOrder env db userId body reply = (Inr (Conflict existing), db, [])"
    by (simp add: createOrder_def truthy_def)
  then show "create_http_status (fst (createOrder env db userId body reply)) = 409"
    by simp
next
  fix ord db1 logs
  assume ok: "createOrder env db userId body reply = (Inr (Created ord), db1, logs)"
  have tr: "truthy (req_idempotencyKey body)" using key nonempty by (simp add: truthy_def)
  let ?P = "\<lambda>r. order_idempotencyKey r = Some k"
  let ?g = "\<lambda>r. if order_id r = order_id ord then r\<lparr>order_status := PENDING_REVIEW\<rparr> else r"
  have facts: "(\<exists>row. findFirst_idempotencyKey db1 (Some k) = Some row \<and>
                 (row = ord \<or> row = ord\<lparr>order_status := PENDING_REVIEW\<rparr>)) \<and>
        length (orders db1) = Suc (length (orders db)) \<and>
        length (filter ?P (orders db1)) = 1"
  proof (cases rule: createOrder_cases[of body db env userId reply])
    case (created t ds ord' db1' db2 logs')
    with ok have eq: "ord' = ord" "db2 = db1" by auto
    note tx = createOrder_transaction_Inr[OF created(3), unfolded eq]
    from created(1) tr key have none: "find ?P (orders db) = None"
      by (simp add: findFirst_idempotencyKey_def)
    then have nofilter: "filter ?P (orders db) = []"
      by (auto simp: find_None_iff filter_empty_conv)
    have keyord: "?P ord" using tx(6) key by simp
    have f1: "find ?P (orders db1') = Some ord"
      using none keyord tx(1) by (simp add: find_append_option)
    have l1: "length (filter ?P (orders db1')) = 1"
      using nofilter keyord tx(1) by simp
    from fraud_check_Some(2)[OF created(4), unfolded eq]
    show ?thesis
    proof
      assume "db1 = db1'"
      with f1 l1 tx(1) show ?thesis by (simp add: findFirst_idempotencyKey_def)
    next
      assume "orders db1 = map ?g (orders db1') \<and>
          (\<exists>risk. fraud_threshold env < risk \<and> fst (performFraudCheck reply) = risk \<and>
             events db1 = events db1' @
               [\<lparr>event_orderId = order_id ord, event_type = FRAUD_FLAGGED,
                 event_userId = ''system'', event_payload = FraudPayload risk\<rparr>])"
      then have os: "orders db1 = map ?g (orders db1')" by blast
      have pg: "\<And>x. ?P (?g x) = ?P x" by simp
      have "find ?P (orders db1) = map_option ?g (find ?P (orders db1'))"
        unfolding os by (rule find_map_image[of ?P ?g, OF pg])
      with f1 have f2: "find ?P (orders db1) = Some (ord\<lparr>order_status := PENDING_REVIEW\<rparr>)"
        by simp
      have "length (filter ?P (orders db1)) = length (filter ?P (orders db1'))"
        unfolding os by (rule length_filter_map_same[of ?P ?g, OF pg])
      with l1 f2 os tx(1) show ?thesis by (simp add: findFirst_idempotencyKey_def)
    qed
  qed (use ok in auto)
  then obtain row where row: "findFirst_idempotencyKey db1 (Some k) = Some row"
    "row = ord \<or> row = ord\<lparr>order_status := PENDING_REVIEW\<rparr>"
    by blast
  from row(1) key nonempty
  have "createOrder env2 db1 userId2 body reply2 = (Inr (Conflict row), db1, [])"
    by (simp add: createOrder_def truthy_def)
  with row(2)
  show "\<exists>row. createOrder env2 db1 userId2 body reply2 = (Inr (Conflict row), db1, []) \<and>
            (row = ord \<or> row = ord\<lparr>order_status := PENDING_REVIEW\<rparr>)"
    by blast
  from facts show "length (orders db1) = Suc (length (orders db))" by blast
  from facts show "length (filter ?P (orders db1)) = 1" by blast
qed

theorem createOrder_idempotent_witness:
  "createOrder testEnv orderedDb ''u1'' cart1 (RiskScore 1) =
     (Inr (Conflict order1), orderedDb, []) \<and>
   length (orders orderedDb) = Suc (length (orders shopDb)) \<and>
   length (filter (\<lambda>r. order_idempotencyKey r = Some ''key-1'') (orders orderedDb)) = 1"
proof -
  have key: "req_idempotencyKey cart1 = Some ''key-1''" by (simp add: cart1_def cart_def)
  have ne: "''key-1'' \<noteq> []" by simp
  note inst = createOrder_idempotent[OF key ne, of shopDb testEnv "''u1''" "RiskScore 1"
      testEnv "''u1''" "RiskScore 1"]
  have ex: "findFirst_idempotencyKey orderedDb (Some ''key-1'') = Some order1"
    by (simp add: findFirst_idempotencyKey_def orderedDb_def order1_def)
  from createOrder_idempotent[OF key ne, of orderedDb testEnv "''u1''" "RiskScore 1"] ex
  have "createOrder testEnv orderedDb ''u1'' cart1 (RiskScore 1) =
          (Inr (Conflict order1), orderedDb, [])"
    by blast
  moreover from inst createOrder_cart1
  have "length (orders orderedDb) = Suc (length (orders shopDb)) \<and>
        length (filter (\<lambda>r. order_idempotencyKey r = Some ''key-1'') (orders orderedDb)) = 1"
    by blast
  ultimately show ?thesis by blast
qed

subsection \<open>Totals\<close>

lemma priceItems_Some:
  "priceItems ps its = Some ds \<Longrightarrow>
   list_all2
     (\<lambda>i it. item_productId it = productId i \<and> item_quantity it = quantity i \<and>
              (\<exists>pr. ps (productId i) = Some pr \<and> item_price it = product_price pr) \<and>
              item_subtotal it = item_price it * of_int (item_quantity it))
     its ds"
proof (induction its arbitrary: ds)
  case Nil
  then show ?case by simp
next
  case (Cons i its)
  from Cons.prems obtain pr ds' where pr: "ps (productId i) = Some pr"
    and rest: "priceItems ps its = Some ds'"
    and ds: "ds = \<lparr>item_productId = productId i, item_quantity = quantity i,
                    item_price = product_price pr,
                    item_subtotal = product_price pr * of_int (quantity i)\<rparr> # ds'"
    by (auto split: option.splits)
  from Cons.IH[OF rest] pr ds show ?case by simp
qed

text \<open>
  A request that no order answers by its key, whose cart is priced and whose decrements
  all change a row, creates an order with the priced items and their total.
\<close>

lemma createOrder_succeeds:
  assumes nohit: "\<not> truthy (req_idempotencyKey body) \<or>
                  findFirst_idempotencyKey db (req_idempotencyKey body) = None"
    and calc: "calculateOrderTotal db (req_items body) = Inr (t, ds)"
    and dec: "verify_updates (snd (decrement_items (products db) (req_items body)))
                (req_items body) = None"
  shows "\<exists>ord db1 logs. createOrder env db userId body reply = (Inr (Created ord), db1, logs) \<and>
           order_items ord = ds \<and> order_total ord = t"
proof -
  obtain ps cs where d: "decrement_items (products db) (req_items body) = (ps, cs)"
    by (cases "decrement_items (products db) (req_items body)")
  with dec obtain ord db1 where tx: "createOrder_transaction db userId body t ds = Inr (ord, db1)"
    by (simp add: createOrder_transaction_def Let_def)
  note w = createOrder_transaction_Inr[OF tx]
  from fraud_check_defined[OF createOrder_transaction_findUnique[OF tx], of env reply]
  obtain db2 logs where fc: "fraud_check env db1 ord reply = Some (db2, logs)" by blast
  have "createOrder env db userId body reply =
          (Inr (Created ord), db2, logs @ [LogInfo ''Order created''])"
    using nohit calc tx fc by (auto simp: createOrder_def)
  with w(4,5) show ?thesis by blast
qed

lemma created_order_total_aux:
  assumes "createOrder env db userId body reply = (Inr (Created ord), db1, logs)"
  shows "order_total ord = sum_list (map item_subtotal (order_items ord)) \<and>
         list_all2
           (\<lambda>i it. item_productId it = productId i \<and> item_quantity it = quantity i \<and>
                    (\<exists>pr. products db (productId i) = Some pr \<and>
                          item_price it = product_price pr) \<and>
                    item_subtotal it = item_price it * of_int (item_quantity it))
           (req_items body) (order_items ord) \<and>
         (\<exists>row. findUnique db1 (order_id ord) = Some row \<and>
                order_total row = order_total ord \<and> order_items row = order_items ord)"
proof (cases rule: createOrder_cases[of body db env userId reply])
  case (created t ds ord' db1' db2 logs')
  with assms have eq: "ord' = ord" "db2 = db1" by auto
  note tx = createOrder_transaction_Inr[OF created(3), unfolded eq]
  from created(2) have pi: "priceItems (products db) (req_items body) = Some ds"
    and t: "t = sum_list (map item_subtotal ds)"
    by (auto simp: calculateOrderTotal_def split: option.splits)
  have a: "order_total ord = sum_list (map item_subtotal (order_items ord))"
    using tx(4,5) t by simp
  have b: "list_all2
           (\<lambda>i it. item_productId it = productId i \<and> item_quantity it = quantity i \<and>
                    (\<exists>pr. products db (productId i) = Some pr \<and>
                          item_price it = product_price pr) \<and>
                    item_subtotal it = item_price it * of_int (item_quantity it))
           (req_items body) (order_items ord)"
    using priceItems_Some[OF pi] tx(4) by simp
  have f1: "findUnique db1' (order_id ord) = Some ord"
    using createOrder_transaction_findUnique[OF created(3)] eq by simp
  have c: "\<exists>row. findUnique db1 (order_id ord) = Some row \<and>
                order_total row = order_total ord \<and> order_items row = order_items ord"
    using fraud_check_Some(2)[OF created(4), unfolded eq]
  proof
    assume "db1 = db1'" with f1 show ?thesis by simp
  next
    let ?g = "\<lambda>r. if order_id r = order_id ord then r\<lparr>order_status := PENDING_REVIEW\<rparr> else r"
    assume "orders db1 = map ?g (orders db1') \<and>
          (\<exists>risk. fraud_threshold env < risk \<and> fst (performFraudCheck reply) = risk \<and>
             events db1 = events db1' @
               [\<lparr>event_orderId = order_id ord, event_type = FRAUD_FLAGGED,
                 event_userId = ''system'', event_payload = FraudPayload risk\<rparr>])"
    then have os: "orders db1 = map ?g (orders db1')" by blast
    have "find (\<lambda>r. order_id r = order_id ord) (orders db1) =
            map_option ?g (find (\<lambda>r. order_id r = order_id ord) (orders db1'))"
      unfolding os by (rule find_map_image) simp
    with f1 show ?thesis by (simp add: findUnique_def)
  qed
  from a b c show ?thesis by blast
qed (use assms in auto)

text \<open>
  C6. A request that reaches the transaction with a priced cart and enough stock for
  every decrement is answered with a created order. The order a successful creation
  returns, and the row it persisted, have as total the sum of the subtotals of their
  items; item by item of the request, the persisted item has the product and quantity
  of the request, the price of the product in the catalogue (not the price of the
  request) and the subtotal price times quantity.
\<close>

theorem created_order_total:
  "(\<forall>t ds.
      (\<not> truthy (req_idempotencyKey body) \<or>
         findFirst_idempotencyKey db (req_idempotencyKey body) = None) \<and>
      calculateOrderTotal db (req_items body) = Inr (t, ds) \<and>
      verify_updates (snd (decrement_items (products db) (req_items body))) (req_items body)
        = None \<longrightarrow>
      (\<exists>ord db1 logs. createOrder env db userId body reply = (Inr (Created ord), db1, logs) \<and>
         order_items ord = ds \<and> order_total ord = t)) \<and>
   (\<forall>ord db1 logs.
      createOrder env db userId body reply = (Inr (Created ord), db1, logs) \<longrightarrow>
      order_total ord = sum_list (map item_subtotal (order_items ord)) \<and>
      list_all2
        (\<lambda>i it. item_productId it = productId i \<and> item_quantity it = quantity i \<and>
                 (\<exists>pr. products db (productId i) = Some pr \<and>
                       item_price it = product_price pr) \<and>
                 item_subtotal it = item_price it * of_int (item_quantity it))
        (req_items body) (order_items ord) \<and>
      (\<exists>row. findUnique db1 (order_id ord) = Some row \<and>
             order_total row = order_total ord \<and> order_items row = order_items ord))"
proof (intro conjI allI impI)
  fix t ds
  assume "(\<not> truthy (req_idempotencyKey body) \<or>
         findFirst_idempotencyKey db (req_idempotencyKey body) = None) \<and>
      calculateOrderTotal db (req_items body) = Inr (t, ds) \<and>
      verify_updates (snd (decrement_items (products db) (req_items body))) (req_items body)
        = None"
  then show "\<exists>ord db1 logs.
      createOrder env db userId body reply = (Inr (Created ord), db1, logs) \<and>
      order_items ord = ds \<and> order_total ord = t"
    using createOrder_succeeds[of body db t ds env userId reply] by blast
next
  fix ord db1 logs
  assume ok: "createOrder env db userId body reply = (Inr (Created ord), db1, logs)"
  from created_order_total_aux[OF ok]
  show "order_total ord = sum_list (map item_subtotal (order_items ord))"
    and "list_all2
        (\<lambda>i it. item_productId it = productId i \<and> item_quantity it = quantity i \<and>
                 (\<exists>pr. products db (productId i) = Some pr \<and>
                       item_price it = product_price pr) \<and>
                 item_subtotal it = item_price it * of_int (item_quantity it))
        (req_items body) (order_items ord)"
    and "\<exists>row. findUnique db1 (order_id ord) = Some row \<and>
             order_total row = order_total ord \<and> order_items row = order_items ord"
    by blast+
qed

text \<open>
  The example of the spec: two of a product priced 10.00 and one of a product priced
  5.50 in the catalogue, with other prices in the request.
\<close>

theorem created_order_total_witness:
  "\<exists>ord db1 logs.
     createOrder testEnv shopDb ''u1''
       (cart [\<lparr>productId = ''A'', quantity = 2, price = 1\<rparr>,
              \<lparr>productId = ''B'', quantity = 1, price = 1\<rparr>] None) (RiskScore 1) =
       (Inr (Created ord), db1, logs) \<and>
     order_total ord = 51 / 2 \<and>
     order_total ord = sum_list (map item_subtotal (order_items ord)) \<and>
     map item_price (order_items ord) = [10, 11 / 2] \<and>
     map item_subtotal (order_items ord) = [20, 11 / 2] \<and>
     (\<exists>row. findUnique db1 (order_id ord) = Some row \<and> order_total row = 51 / 2 \<and>
            order_items row = order_items ord)"
proof -
  let ?body = "cart [\<lparr>productId = ''A'', quantity = 2, price = 1\<rparr>,
                     \<lparr>productId = ''B'', quantity = 1, price = 1\<rparr>] None"
  let ?ds = "[\<lparr>item_productId = ''A'', item_quantity = 2, item_price = 10,
               item_subtotal = 20\<rparr>,
              \<lparr>item_productId = ''B'', item_quantity = 1, item_price = 11 / 2,
               item_subtotal = 11 / 2\<rparr>]"
  note inst = created_order_total[of ?body shopDb testEnv "''u1''" "RiskScore 1"]
  have h1: "\<not> truthy (req_idempotencyKey ?body) \<or>
            findFirst_idempotencyKey shopDb (req_idempotencyKey ?body) = None"
    by (simp add: cart_def truthy_def)
  have h2: "calculateOrderTotal shopDb (req_items ?body) = Inr (51 / 2, ?ds)"
    by (simp add: calculateOrderTotal_def cart_def shopDb_def)
  have h3: "verify_updates (snd (decrement_items (products shopDb) (req_items ?body)))
              (req_items ?body) = None"
    by (simp add: cart_def shopDb_def updateMany_decrement_def)
  from inst h1 h2 h3 obtain ord db1 logs where
    run: "createOrder testEnv shopDb ''u1'' ?body (RiskScore 1) = (Inr (Created ord), db1, logs)"
    and its: "order_items ord = ?ds" and tot: "order_total ord = 51 / 2"
    by blast
  from inst run
  have sum: "order_total ord = sum_list (map item_subtotal (order_items ord))"
    and "\<exists>row. findUnique db1 (order_id ord) = Some row \<and>
             order_total row = order_total ord \<and> order_items row = order_items ord"
    by blast+
  then obtain row where row: "findUnique db1 (order_id ord) = Some row"
    "order_total row = 51 / 2" "order_items row = order_items ord"
    using tot by auto
  then have stored: "\<exists>row. findUnique db1 (order_id ord) = Some row \<and>
      order_total row = 51 / 2 \<and> order_items row = order_items ord"
    by blast
  have prices: "map item_price (order_items ord) = [10, 11 / 2]"
    and subtotals: "map item_subtotal (order_items ord) = [20, 11 / 2]"
    using its by simp_all
  have "createOrder testEnv shopDb ''u1'' ?body (RiskScore 1) = (Inr (Created ord), db1, logs) \<and>
     order_total ord = 51 / 2 \<and>
     order_total ord = sum_list (map item_subtotal (order_items ord)) \<and>
     map item_price (order_items ord) = [10, 11 / 2] \<and>
     map item_subtotal (order_items ord) = [20, 11 / 2] \<and>
     (\<exists>row. findUnique db1 (order_id ord) = Some row \<and> order_total row = 51 / 2 \<and>
            order_items row = order_items ord)"
    using run tot sum prices subtotals stored by (intro conjI)
  then show ?thesis by (intro exI)
qed

subsection \<open>Failures of the external services\<close>

text \<open>
  C7. When the fraud service fails after the transaction of a creation has committed,
  the handler answers 201 with the created order; the failure is logged when the check
  is enabled; the products are those the transaction committed, the order is still in
  the database (as committed when the threshold is not negative; a negative threshold
  flags it, the risk of a failed check being 0). When the shipping webhook fails after
  the transaction of a status update has committed, the handler answers with the
  updated order and the committed database, and the failure is logged.
\<close>

theorem hooks_fail_open:
  "(\<forall>t ds ord db1.
      (\<not> truthy (req_idempotencyKey body) \<or>
         findFirst_idempotencyKey db (req_idempotencyKey body) = None) \<and>
      calculateOrderTotal db (req_items body) = Inr (t, ds) \<and>
      createOrder_transaction db userId body t ds = Inr (ord, db1) \<longrightarrow>
      (\<exists>db2 logs.
         createOrder env db userId body FraudServiceFailure = (Inr (Created ord), db2, logs) \<and>
         products db2 = products db1 \<and>
         (\<exists>row. findUnique db2 (order_id ord) = Some row \<and>
                (row = ord \<or> row = ord\<lparr>order_status := PENDING_REVIEW\<rparr>)) \<and>
         (0 \<le> fraud_threshold env \<longrightarrow> db2 = db1) \<and>
         (NODE_ENV env = ''production'' \<and> FRAUD_CHECK_ENABLED env = Some ''true'' \<longrightarrow>
            LogError ''Fraud check failed'' \<in> set logs))) \<and>
   (\<forall>cur allowed ord db1.
      findUnique db i = Some cur \<and>
      VALID_STATUS_TRANSITIONS (order_status cur) = Some allowed \<and> status \<in> set allowed \<and>
      updateStatus_transaction db cur i status tn userId2 = Inr (ord, db1) \<longrightarrow>
      updateStatus db i status tn userId2 ShippingFailure =
        (Inr ord, db1,
         (if status = SHIPPED \<and> truthy tn then [LogError ''Shipping notification failed'']
          else []) @ [LogInfo ''Order status updated'']))"
proof (intro conjI allI impI)
  fix t ds ord db1
  assume h: "(\<not> truthy (req_idempotencyKey body) \<or>
         findFirst_idempotencyKey db (req_idempotencyKey body) = None) \<and>
      calculateOrderTotal db (req_items body) = Inr (t, ds) \<and>
      createOrder_transaction db userId body t ds = Inr (ord, db1)"
  then have tx: "createOrder_transaction db userId body t ds = Inr (ord, db1)" by blast
  have f1: "findUnique db1 (order_id ord) = Some ord"
    by (rule createOrder_transaction_findUnique[OF tx])
  from fraud_check_defined[OF f1, of env FraudServiceFailure]
  obtain db2 logs where fc: "fraud_check env db1 ord FraudServiceFailure = Some (db2, logs)"
    by blast
  have res: "createOrder env db userId body FraudServiceFailure =
               (Inr (Created ord), db2, logs @ [LogInfo ''Order created''])"
    using h fc by (auto simp: createOrder_def)
  let ?g = "\<lambda>r. if order_id r = order_id ord then r\<lparr>order_status := PENDING_REVIEW\<rparr> else r"
  have row: "\<exists>row. findUnique db2 (order_id ord) = Some row \<and>
                (row = ord \<or> row = ord\<lparr>order_status := PENDING_REVIEW\<rparr>)"
    using fraud_check_Some(2)[OF fc]
  proof
    assume "db2 = db1" with f1 show ?thesis by simp
  next
    assume "orders db2 = map ?g (orders db1) \<and>
          (\<exists>risk. fraud_threshold env < risk \<and> fst (performFraudCheck FraudServiceFailure) = risk \<and>
             events db2 = events db1 @
               [\<lparr>event_orderId = order_id ord, event_type = FRAUD_FLAGGED,
                 event_userId = ''system'', event_payload = FraudPayload risk\<rparr>])"
    then have os: "orders db2 = map ?g (orders db1)" by blast
    have "find (\<lambda>r. order_id r = order_id ord) (orders db2) =
            map_option ?g (find (\<lambda>r. order_id r = order_id ord) (orders db1))"
      unfolding os by (rule find_map_image) simp
    with f1 show ?thesis by (simp add: findUnique_def)
  qed
  have same: "0 \<le> fraud_threshold env \<longrightarrow> db2 = db1"
    using fc by (auto simp: fraud_check_def performFraudCheck_def split: if_splits)
  have logged: "NODE_ENV env = ''production'' \<and> FRAUD_CHECK_ENABLED env = Some ''true'' \<longrightarrow>
            LogError ''Fraud check failed'' \<in> set (logs @ [LogInfo ''Order created''])"
    using fc
    by (auto simp: fraud_check_def performFraudCheck_def split: if_splits option.splits)
  from res fraud_check_Some(1)[OF fc] row same logged
  show "\<exists>db2 logs.
         createOrder env db userId body FraudServiceFailure = (Inr (Created ord), db2, logs) \<and>
         products db2 = products db1 \<and>
         (\<exists>row. findUnique db2 (order_id ord) = Some row \<and>
                (row = ord \<or> row = ord\<lparr>order_status := PENDING_REVIEW\<rparr>)) \<and>
         (0 \<le> fraud_threshold env \<longrightarrow> db2 = db1) \<and>
         (NODE_ENV env = ''production'' \<and> FRAUD_CHECK_ENABLED env = Some ''true'' \<longrightarrow>
            LogError ''Fraud check failed'' \<in> set logs)"
    by blast
next
  fix cur allowed ord db1
  assume "findUnique db i = Some cur \<and>
      VALID_STATUS_TRANSITIONS (order_status cur) = Some allowed \<and> status \<in> set allowed \<and>
      updateStatus_transaction db cur i status tn userId2 = Inr (ord, db1)"
  then show "updateStatus db i status tn userId2 ShippingFailure =
        (Inr ord, db1,
         (if status = SHIPPED \<and> truthy tn then [LogError ''Shipping notification failed'']
          else []) @ [LogInfo ''Order status updated''])"
    by (simp add: updateStatus_def notifyShippingProvider_def)
qed

theorem hooks_fail_open_witness:
  "fst (createOrder fraudCheckEnv shopDb ''u1'' cart1 FraudServiceFailure) =
     Inr (Created order1) \<and>
   fst (snd (createOrder fraudCheckEnv shopDb ''u1'' cart1 FraudServiceFailure)) = orderedDb \<and>
   LogError ''Fraud check failed'' \<in>
     set (snd (snd (createOrder fraudCheckEnv shopDb ''u1'' cart1 FraudServiceFailure))) \<and>
   updateStatus processingDb 1 SHIPPED (Some ''TRK-1'') ''admin'' ShippingFailure =
     (Inr (order1\<lparr>order_status := SHIPPED, order_trackingNumber := Some ''TRK-1''\<rparr>),
      orderedDb\<lparr>orders :=
                  [order1\<lparr>order_status := SHIPPED, order_trackingNumber := Some ''TRK-1''\<rparr>],
                events :=
                  [event1,
                   \<lparr>event_orderId = 1, event_type = STATUS_CHANGE, event_userId = ''admin'',
                    event_payload =
                      StatusChangePayload PROCESSING SHIPPED (Some ''TRK-1'')\<rparr>]\<rparr>,
      [LogError ''Shipping notification failed'', LogInfo ''Order status updated''])"
proof -
  note inst = hooks_fail_open[where body = cart1 and db = shopDb and userId = "''u1''"
      and env = fraudCheckEnv]
  note inst2 = hooks_fail_open[where db = processingDb and i = 1 and status = SHIPPED
      and tn = "Some ''TRK-1''" and ?userId2.0 = "''admin''"]
  have a1: "\<not> truthy (req_idempotencyKey cart1) \<or>
         findFirst_idempotencyKey shopDb (req_idempotencyKey cart1) = None"
    by (simp add: findFirst_idempotencyKey_def shopDb_def)
  have a2: "calculateOrderTotal shopDb (req_items cart1) = Inr (51 / 2, order_items order1)"
    by (simp add: calculateOrderTotal_def cart1_def cart_def shopDb_def order1_def)
  have a3: "createOrder_transaction shopDb ''u1'' cart1 (51 / 2) (order_items order1) =
              Inr (order1, orderedDb)"
    by (simp add: cart1_def cart_def shopDb_def createOrder_transaction_def Let_def fresh_id_def
        updateMany_decrement_def orderEvent_create_def
        order1_def orderedDb_def event1_def homeAddress_def)
  from inst a1 a2 a3 obtain db2 logs where
    r: "createOrder fraudCheckEnv shopDb ''u1'' cart1 FraudServiceFailure =
          (Inr (Created order1), db2, logs)"
    and s: "0 \<le> fraud_threshold fraudCheckEnv \<longrightarrow> db2 = orderedDb"
    and l: "NODE_ENV fraudCheckEnv = ''production'' \<and>
            FRAUD_CHECK_ENABLED fraudCheckEnv = Some ''true'' \<longrightarrow>
            LogError ''Fraud check failed'' \<in> set logs"
    by blast
  have "0 \<le> fraud_threshold fraudCheckEnv"
    by (simp add: fraud_threshold_def fraudCheckEnv_def)
  with s have db2: "db2 = orderedDb" by simp
  from l have "LogError ''Fraud check failed'' \<in> set logs"
    by (simp add: fraudCheckEnv_def)
  with r db2 have A: "fst (createOrder fraudCheckEnv shopDb ''u1'' cart1 FraudServiceFailure) =
     Inr (Created order1) \<and>
   fst (snd (createOrder fraudCheckEnv shopDb ''u1'' cart1 FraudServiceFailure)) = orderedDb \<and>
   LogError ''Fraud check failed'' \<in>
     set (snd (snd (createOrder fraudCheckEnv shopDb ''u1'' cart1 FraudServiceFailure)))"
    by simp
  have b1: "findUnique processingDb 1 = Some (order1\<lparr>order_status := PROCESSING\<rparr>)"
    by (simp add: findUnique_def processingDb_def order1_def)
  have b2: "VALID_STATUS_TRANSITIONS (order_status (order1\<lparr>order_status := PROCESSING\<rparr>)) =
              Some [SHIPPED, CANCELLED]"
    by simp
  have b3: "updateStatus_transaction processingDb (order1\<lparr>order_status := PROCESSING\<rparr>) 1
              SHIPPED (Some ''TRK-1'') ''admin'' =
            Inr (order1\<lparr>order_status := SHIPPED, order_trackingNumber := Some ''TRK-1''\<rparr>,
               orderedDb\<lparr>orders :=
                  [order1\<lparr>order_status := SHIPPED, order_trackingNumber := Some ''TRK-1''\<rparr>],
                events :=
                  [event1,
                   \<lparr>event_orderId = 1, event_type = STATUS_CHANGE, event_userId = ''admin'',
                    event_payload =
                      StatusChangePayload PROCESSING SHIPPED (Some ''TRK-1'')\<rparr>]\<rparr>)"
    by (simp add: findUnique_def processingDb_def orderedDb_def order1_def
          updateStatus_transaction_def order_update_def truthy_def orderEvent_create_def)
  from inst2 b1 b2 b3
  have B: "updateStatus processingDb 1 SHIPPED (Some ''TRK-1'') ''admin'' ShippingFailure =
     (Inr (order1\<lparr>order_status := SHIPPED, order_trackingNumber := Some ''TRK-1''\<rparr>),
      orderedDb\<lparr>orders :=
                  [order1\<lparr>order_status := SHIPPED, order_trackingNumber := Some ''TRK-1''\<rparr>],
                events :=
                  [event1,
                   \<lparr>event_orderId = 1, event_type = STATUS_CHANGE, event_userId = ''admin'',
                    event_payload =
                      StatusChangePayload PROCESSING SHIPPED (Some ''TRK-1'')\<rparr>]\<rparr>,
      [LogError ''Shipping notification failed'', LogInfo ''Order status updated''])"
    by (simp add: truthy_def)
  from A B show ?thesis by blast
qed

subsection \<open>Stock stays non-negative\<close>

text \<open>A conditional decrement that changes a row found at least the quantity in stock.\<close>

lemma updateMany_decrement_guard:
  "updateMany_decrement ps pid q = (ps1, Suc n) \<Longrightarrow>
   \<exists>pr. ps pid = Some pr \<and> q \<le> stock pr \<and> ps1 = ps(pid \<mapsto> pr\<lparr>stock := stock pr - q\<rparr>)"
  by (auto simp: updateMany_decrement_def split: option.splits if_splits)

lemma updateMany_decrement_nonneg:
  assumes "\<forall>p pr. ps p = Some pr \<longrightarrow> 0 \<le> stock pr"
  shows "\<forall>p pr. fst (updateMany_decrement ps pid q) p = Some pr \<longrightarrow> 0 \<le> stock pr"
  using assms by (auto simp: updateMany_decrement_def split: option.splits if_splits)

lemma updateMany_decrement_le:
  assumes "0 \<le> q"
  shows "(case fst (updateMany_decrement ps pid q) p of None \<Rightarrow> 0 | Some pr \<Rightarrow> stock pr)
           \<le> (case ps p of None \<Rightarrow> 0 | Some pr \<Rightarrow> stock pr)"
  using assms by (auto simp: updateMany_decrement_def split: option.splits if_splits)

lemma decrement_items_nonneg:
  "\<forall>p pr. ps p = Some pr \<longrightarrow> 0 \<le> stock pr \<Longrightarrow>
   \<forall>p pr. fst (decrement_items ps its) p = Some pr \<longrightarrow> 0 \<le> stock pr"
proof (induction its arbitrary: ps)
  case Nil
  then show ?case by simp
next
  case (Cons i its)
  obtain ps1 c where a: "updateMany_decrement ps (productId i) (quantity i) = (ps1, c)"
    by (cases "updateMany_decrement ps (productId i) (quantity i)")
  obtain ps2 cs where b: "decrement_items ps1 its = (ps2, cs)"
    by (cases "decrement_items ps1 its")
  from updateMany_decrement_nonneg[OF Cons.prems, of "productId i" "quantity i"] a
  have "\<forall>p pr. ps1 p = Some pr \<longrightarrow> 0 \<le> stock pr" by simp
  from Cons.IH[OF this] a b show ?case by simp
qed

lemma decrement_items_le:
  "list_all OrderItemSchema its \<Longrightarrow>
   (case fst (decrement_items ps its) p of None \<Rightarrow> 0 | Some pr \<Rightarrow> stock pr)
     \<le> (case ps p of None \<Rightarrow> 0 | Some pr \<Rightarrow> stock pr)"
proof (induction its arbitrary: ps)
  case Nil
  then show ?case by simp
next
  case (Cons i its)
  obtain ps1 c where a: "updateMany_decrement ps (productId i) (quantity i) = (ps1, c)"
    by (cases "updateMany_decrement ps (productId i) (quantity i)")
  obtain ps2 cs where b: "decrement_items ps1 its = (ps2, cs)"
    by (cases "decrement_items ps1 its")
  from Cons.prems have "OrderItemSchema i" and rest: "list_all OrderItemSchema its"
    by simp_all
  then have q: "0 \<le> quantity i" by (simp add: OrderItemSchema_def)
  from updateMany_decrement_le[OF q, of ps "productId i" p] a
  have s1: "(case ps1 p of None \<Rightarrow> 0 | Some pr \<Rightarrow> stock pr)
              \<le> (case ps p of None \<Rightarrow> 0 | Some pr \<Rightarrow> stock pr)"
    by simp
  from Cons.IH[OF rest, of ps1] b
  have s2: "(case ps2 p of None \<Rightarrow> 0 | Some pr \<Rightarrow> stock pr)
              \<le> (case ps1 p of None \<Rightarrow> 0 | Some pr \<Rightarrow> stock pr)"
    by simp
  from s1 s2 a b show ?case by simp
qed

lemma stock_nonneg_iff:
  "(\<forall>p. 0 \<le> stock_of db p) \<longleftrightarrow> (\<forall>p pr. products db p = Some pr \<longrightarrow> 0 \<le> stock pr)"
proof
  assume h: "\<forall>p. 0 \<le> stock_of db p"
  show "\<forall>p pr. products db p = Some pr \<longrightarrow> 0 \<le> stock pr"
  proof (intro allI impI)
    fix p pr assume "products db p = Some pr"
    with h[rule_format, of p] show "0 \<le> stock pr" by (simp add: stock_of_def)
  qed
next
  assume h: "\<forall>p pr. products db p = Some pr \<longrightarrow> 0 \<le> stock pr"
  show "\<forall>p. 0 \<le> stock_of db p"
  proof
    fix p show "0 \<le> stock_of db p"
      using h by (cases "products db p") (auto simp: stock_of_def)
  qed
qed

lemma stock_of_cong: "products db1 = products db \<Longrightarrow> stock_of db1 p = stock_of db p"
  by (simp add: stock_of_def)

lemma priceItems_quantities:
  "priceItems ps its = Some ds \<Longrightarrow> list_all OrderItemSchema its \<Longrightarrow>
   list_all (\<lambda>it. 0 < item_quantity it) ds"
proof (induction its arbitrary: ds)
  case Nil
  then show ?case by simp
next
  case (Cons i its)
  from Cons.prems(1) obtain pr ds' where pr: "ps (productId i) = Some pr"
    and rest: "priceItems ps its = Some ds'"
    and ds: "ds = \<lparr>item_productId = productId i, item_quantity = quantity i,
                    item_price = product_price pr,
                    item_subtotal = product_price pr * of_int (quantity i)\<rparr> # ds'"
    by (auto split: option.splits)
  from Cons.prems(2) have "OrderItemSchema i" and v: "list_all OrderItemSchema its"
    by simp_all
  then have q: "0 < quantity i" by (simp add: OrderItemSchema_def)
  from Cons.IH[OF rest v] ds q show ?case by simp
qed

lemma quantities_positive_map:
  assumes "quantities_positive db" and "orders db1 = map g (orders db)"
    and "\<And>r. order_items (g r) = order_items r"
  shows "quantities_positive db1"
  using assms by (simp add: quantities_positive_def list_all_iff)

lemma quantity_of_nonneg:
  "list_all (\<lambda>it. 0 < item_quantity it) its \<Longrightarrow> 0 \<le> quantity_of p its"
  by (induction its) (auto simp: quantity_of_def)

text \<open>What one request does to the stock and to the two invariants.\<close>

lemma createOrder_step:
  assumes valid: "OrderCreateSchema body"
  shows "stock_of (fst (snd (createOrder env db userId body reply))) p \<le> stock_of db p"
    and "\<forall>p. 0 \<le> stock_of db p \<Longrightarrow>
         \<forall>p. 0 \<le> stock_of (fst (snd (createOrder env db userId body reply))) p"
    and "quantities_positive db \<Longrightarrow>
         quantities_positive (fst (snd (createOrder env db userId body reply)))"
proof -
  from valid have its: "list_all OrderItemSchema (req_items body)"
    by (simp add: OrderCreateSchema_def)
  have "stock_of (fst (snd (createOrder env db userId body reply))) p \<le> stock_of db p \<and>
        ((\<forall>p. 0 \<le> stock_of db p) \<longrightarrow>
         (\<forall>p. 0 \<le> stock_of (fst (snd (createOrder env db userId body reply))) p)) \<and>
        (quantities_positive db \<longrightarrow>
         quantities_positive (fst (snd (createOrder env db userId body reply))))"
  proof (cases rule: createOrder_cases[of body db env userId reply])
    case (created t ds ord db1 db2 logs)
    note tx = createOrder_transaction_Inr[OF created(3)]
    have p2: "products db2 = fst (decrement_items (products db) (req_items body))"
      using fraud_check_Some(1)[OF created(4)] tx(7) by simp
    have le: "stock_of db2 p \<le> stock_of db p"
      using decrement_items_le[OF its, of "products db" p] p2 by (simp add: stock_of_def)
    have nn: "(\<forall>p. 0 \<le> stock_of db p) \<longrightarrow> (\<forall>p. 0 \<le> stock_of db2 p)"
      using decrement_items_nonneg[of "products db" "req_items body"] p2
      unfolding stock_nonneg_iff by simp
    from created(2) have "priceItems (products db) (req_items body) = Some ds"
      by (auto simp: calculateOrderTotal_def split: option.splits)
    from priceItems_quantities[OF this its] tx(4)
    have pos: "list_all (\<lambda>it. 0 < item_quantity it) (order_items ord)" by simp
    have qp1: "quantities_positive db \<longrightarrow> quantities_positive db1"
      using tx(1) pos by (simp add: quantities_positive_def)
    have qp2: "quantities_positive db1 \<longrightarrow> quantities_positive db2"
      using fraud_check_Some(2)[OF created(4)]
    proof
      assume "db2 = db1" then show ?thesis by simp
    next
      assume "orders db2 =
          map (\<lambda>r. if order_id r = order_id ord then r\<lparr>order_status := PENDING_REVIEW\<rparr> else r)
            (orders db1) \<and>
          (\<exists>risk. fraud_threshold env < risk \<and> fst (performFraudCheck reply) = risk \<and>
             events db2 = events db1 @
               [\<lparr>event_orderId = order_id ord, event_type = FRAUD_FLAGGED,
                 event_userId = ''system'', event_payload = FraudPayload risk\<rparr>])"
      then have os: "orders db2 =
          map (\<lambda>r. if order_id r = order_id ord then r\<lparr>order_status := PENDING_REVIEW\<rparr> else r)
            (orders db1)"
        by blast
      show ?thesis
      proof
        assume "quantities_positive db1"
        from quantities_positive_map[OF this os] show "quantities_positive db2" by simp
      qed
    qed
    from le nn qp1 qp2 created(5) show ?thesis by simp
  qed auto
  then show "stock_of (fst (snd (createOrder env db userId body reply))) p \<le> stock_of db p"
    and "\<forall>p. 0 \<le> stock_of db p \<Longrightarrow>
         \<forall>p. 0 \<le> stock_of (fst (snd (createOrder env db userId body reply))) p"
    and "quantities_positive db \<Longrightarrow>
         quantities_positive (fst (snd (createOrder env db userId body reply)))"
    by blast+
qed

lemma updateStatus_step:
  assumes qp: "quantities_positive db"
  shows "stock_of (fst (snd (updateStatus db i status tn userId reply))) p =
           stock_of db p + reversed_by db (UpdateStatusRequest i status tn userId reply) p"
    and "0 \<le> reversed_by db (UpdateStatusRequest i status tn userId reply) p"
    and "quantities_positive (fst (snd (updateStatus db i status tn userId reply)))"
proof -
  have "stock_of (fst (snd (updateStatus db i status tn userId reply))) p =
           stock_of db p + reversed_by db (UpdateStatusRequest i status tn userId reply) p \<and>
        0 \<le> reversed_by db (UpdateStatusRequest i status tn userId reply) p \<and>
        quantities_positive (fst (snd (updateStatus db i status tn userId reply)))"
  proof (cases rule: updateStatus_cases[of db i status tn userId reply])
    case (updated cur allowed ord db1)
    note tx = updateStatus_transaction_Inr[OF updated(4,1)]
    from findUnique_id[OF updated(1)] qp
    have pos: "list_all (\<lambda>it. 0 < item_quantity it) (order_items cur)"
      by (auto simp: quantities_positive_def list_all_iff)
    have qp1: "quantities_positive db1"
      by (rule quantities_positive_map[OF qp tx(2)]) simp
    show ?thesis
    proof (cases "status = CANCELLED")
      case True
      with updated(2,3) have "order_status cur \<in> set [PENDING, PROCESSING]"
        by (cases "order_status cur") auto
      with tx(4) True
      have inc: "increment_items (products db) (order_items cur) = Some (products db1)"
        by simp
      from increment_items_stock[OF inc, of p] quantity_of_nonneg[OF pos, of p] qp1
        updated(1,5) True
      show ?thesis by simp
    next
      case False
      with tx(4) have "products db1 = products db" by simp
      from stock_of_cong[OF this, of p] qp1 updated(1,5) False show ?thesis by simp
    qed
  qed (use qp in auto)
  then show "stock_of (fst (snd (updateStatus db i status tn userId reply))) p =
           stock_of db p + reversed_by db (UpdateStatusRequest i status tn userId reply) p"
    and "0 \<le> reversed_by db (UpdateStatusRequest i status tn userId reply) p"
    and "quantities_positive (fst (snd (updateStatus db i status tn userId reply)))"
    by blast+
qed

lemma handle_step:
  assumes nn: "\<forall>p. 0 \<le> stock_of db p" and qp: "quantities_positive db"
    and valid: "valid_request r"
  shows "\<forall>p. 0 \<le> stock_of (handle env db r) p"
    and "quantities_positive (handle env db r)"
    and "stock_of (handle env db r) p \<le> stock_of db p + reversed_by db r p"
proof -
  have "(\<forall>p. 0 \<le> stock_of (handle env db r) p) \<and> quantities_positive (handle env db r) \<and>
        stock_of (handle env db r) p \<le> stock_of db p + reversed_by db r p"
  proof (cases r)
    case (CreateOrderRequest userId body reply)
    with valid have v: "OrderCreateSchema body" by simp
    from createOrder_step(1)[OF v, of env db userId reply p]
      createOrder_step(2)[OF v nn, of env userId reply]
      createOrder_step(3)[OF v qp, of env userId reply] CreateOrderRequest
    show ?thesis by simp
  next
    case (UpdateStatusRequest i status tn userId reply)
    have "\<forall>p. 0 \<le> stock_of (fst (snd (updateStatus db i status tn userId reply))) p"
    proof
      fix q
      from updateStatus_step(1,2)[OF qp, of i status tn userId reply q] nn[rule_format, of q]
      show "0 \<le> stock_of (fst (snd (updateStatus db i status tn userId reply))) q"
        by linarith
    qed
    with updateStatus_step(1,3)[OF qp, of i status tn userId reply] UpdateStatusRequest
    show ?thesis by simp
  qed
  then show "\<forall>p. 0 \<le> stock_of (handle env db r) p"
    and "quantities_positive (handle env db r)"
    and "stock_of (handle env db r) p \<le> stock_of db p + reversed_by db r p"
    by blast+
qed

text \<open>
  C4. From a database whose stocks are non-negative (and whose persisted items have
  positive quantities, as the data model requires), after any sequence of validated
  requests to the two handlers every stock is non-negative and is at most the stock at
  the start plus the quantities of the product that the cancellations in the sequence
  gave back. The sequence is any sequence, so the same holds after each of its
  prefixes.
\<close>

theorem stock_never_negative:
  assumes "\<forall>p. 0 \<le> stock_of db p" and "quantities_positive db"
    and "list_all valid_request reqs"
  shows "\<forall>p. 0 \<le> stock_of (serve env db reqs) p \<and>
             stock_of (serve env db reqs) p \<le> stock_of db p + reversed env db reqs p"
  using assms
proof (induction reqs arbitrary: db)
  case Nil
  then show ?case by simp
next
  case (Cons r reqs)
  from Cons.prems(3) have v: "valid_request r" and vs: "list_all valid_request reqs"
    by simp_all
  note step = handle_step[OF Cons.prems(1,2) v, of env]
  note ih = Cons.IH[OF step(1,2) vs]
  show ?case
  proof
    fix p
    from ih have a: "0 \<le> stock_of (serve env (handle env db r) reqs) p"
      and b: "stock_of (serve env (handle env db r) reqs) p
                \<le> stock_of (handle env db r) p + reversed env (handle env db r) reqs p"
      by blast+
    from step(3)[of p] b
    have "stock_of (serve env (handle env db r) reqs) p
            \<le> stock_of db p + (reversed_by db r p + reversed env (handle env db r) reqs p)"
      by linarith
    with a show "0 \<le> stock_of (serve env db (r # reqs)) p \<and>
             stock_of (serve env db (r # reqs)) p
               \<le> stock_of db p + reversed env db (r # reqs) p"
      by simp
  qed
qed

theorem stock_never_negative_witness:
  "0 \<le> stock_of
          (serve testEnv shopDb
             [CreateOrderRequest ''u1'' cart1 (RiskScore 1),
              UpdateStatusRequest 1 CANCELLED None ''admin'' ShippingAccepted,
              CreateOrderRequest ''u2'' cart1 (RiskScore 1)]) ''A'' \<and>
   stock_of
     (serve testEnv shopDb
        [CreateOrderRequest ''u1'' cart1 (RiskScore 1),
         UpdateStatusRequest 1 CANCELLED None ''admin'' ShippingAccepted,
         CreateOrderRequest ''u2'' cart1 (RiskScore 1)]) ''A''
     \<le> stock_of shopDb ''A'' +
        reversed testEnv shopDb
          [CreateOrderRequest ''u1'' cart1 (RiskScore 1),
           UpdateStatusRequest 1 CANCELLED None ''admin'' ShippingAccepted,
           CreateOrderRequest ''u2'' cart1 (RiskScore 1)] ''A''"
proof -
  have h1: "\<forall>p. 0 \<le> stock_of shopDb p" by (simp add: stock_of_def shopDb_def)
  have h2: "quantities_positive shopDb" by (simp add: quantities_positive_def shopDb_def)
  have h3: "list_all valid_request
              [CreateOrderRequest ''u1'' cart1 (RiskScore 1),
               UpdateStatusRequest 1 CANCELLED None ''admin'' ShippingAccepted,
               CreateOrderRequest ''u2'' cart1 (RiskScore 1)]"
    by (simp add: OrderCreateSchema_def OrderItemSchema_def OrderUpdateSchema_def cart1_def
          cart_def)
  from stock_never_negative[OF h1 h2 h3, of testEnv] show ?thesis by blast
qed

text \<open>
  For a validated cart, an item that asks for more than the stock its product has when
  the request arrives (or whose product is missing) makes some decrement of the batch
  change no row: the decrements before it only lower the stock.
\<close>

lemma decrement_items_zero_count:
  assumes "list_all OrderItemSchema its" and "i \<in> set its"
    and "case ps (productId i) of None \<Rightarrow> True | Some pr \<Rightarrow> stock pr < quantity i"
  shows "0 \<in> set (snd (decrement_items ps its))"
  using assms
proof (induction its arbitrary: ps)
  case Nil
  then show ?case by simp
next
  case (Cons a its)
  obtain ps1 c where a: "updateMany_decrement ps (productId a) (quantity a) = (ps1, c)"
    by (cases "updateMany_decrement ps (productId a) (quantity a)")
  obtain ps2 cs where b: "decrement_items ps1 its = (ps2, cs)"
    by (cases "decrement_items ps1 its")
  from Cons.prems(1) have "OrderItemSchema a" and rest: "list_all OrderItemSchema its"
    by simp_all
  then have qa: "0 \<le> quantity a" by (simp add: OrderItemSchema_def)
  show ?case
  proof (cases "i = a")
    case True
    with Cons.prems(3) a have "c = 0"
      by (auto simp: updateMany_decrement_def split: option.splits if_splits)
    with a b show ?thesis by simp
  next
    case False
    with Cons.prems(2) have mem: "i \<in> set its" by simp
    have low: "case ps1 (productId i) of None \<Rightarrow> True | Some pr \<Rightarrow> stock pr < quantity i"
      using Cons.prems(3) a qa
      by (auto simp: updateMany_decrement_def split: option.splits if_splits)
    from Cons.IH[of ps1, OF rest mem low] b have "0 \<in> set cs" by simp
    with a b show ?thesis by simp
  qed
qed

subsection \<open>Two requests for the last unit, one after the other\<close>

text \<open>
  The model runs requests one at a time. In that order, of two requests for the one
  unit of A in stock the first creates its order and the second is refused and leaves
  the database of the first. How two transactions interleave inside the database is
  not part of the model.
\<close>

lemma last_unit_serial:
  "fst (createOrder testEnv orderedDb ''u2''
          (cart [\<lparr>productId = ''A'', quantity = 1, price = 10\<rparr>] None) (RiskScore 0)) =
     Inr (Created
            (order1\<lparr>order_id := 2, order_userId := ''u2'', order_total := 10,
                    order_idempotencyKey := None,
                    order_items :=
                      [\<lparr>item_productId = ''A'', item_quantity = 1, item_price = 10,
                        item_subtotal = 10\<rparr>]\<rparr>)) \<and>
   stock_of
     (fst (snd (createOrder testEnv orderedDb ''u2''
                  (cart [\<lparr>productId = ''A'', quantity = 1, price = 10\<rparr>] None)
                  (RiskScore 0)))) ''A'' = 0 \<and>
   createOrder testEnv
     (fst (snd (createOrder testEnv orderedDb ''u2''
                  (cart [\<lparr>productId = ''A'', quantity = 1, price = 10\<rparr>] None)
                  (RiskScore 0))))
     ''u3'' (cart [\<lparr>productId = ''A'', quantity = 1, price = 10\<rparr>] None) (RiskScore 0) =
     (Inl (InsufficientStockError ''A''),
      fst (snd (createOrder testEnv orderedDb ''u2''
                  (cart [\<lparr>productId = ''A'', quantity = 1, price = 10\<rparr>] None)
                  (RiskScore 0))),
      [LogError ''Order creation failed''])"
  by (simp add: createOrder_def cart_def truthy_def
        calculateOrderTotal_def createOrder_transaction_def Let_def fresh_id_def
        updateMany_decrement_def orderEvent_create_def fraud_check_def testEnv_def
        order1_def orderedDb_def event1_def homeAddress_def stock_of_def)

end
